theory Spec2Isabelle
  imports Main "HOL-Library.Word"
begin

unbundle bit_operations_syntax

section \<open>Register files: kernel\_abi.h, Registers.h, Registers.cc\<close>

text \<open>
  The two \<open>user_regs_struct\<close> layouts of kernel\_abi.h. The 32-bit structure holds
  seventeen \<open>int32_t\<close> fields; they are kept as 32-bit words and read as two's
  complement with \<open>sint\<close> where the code compares them as signed. The 64-bit structure
  holds \<open>uint64_t\<close> registers and, for the segment registers and eflags, a
  \<open>uint32_t\<close> field followed by a \<open>uint32_t\<close> \<open>_upper\<close> padding field.
\<close>

record X86_user_regs_struct =
  ebx :: "32 word"
  ecx :: "32 word"
  edx :: "32 word"
  esi :: "32 word"
  edi :: "32 word"
  ebp :: "32 word"
  eax :: "32 word"
  xds :: "32 word"
  xes :: "32 word"
  xfs :: "32 word"
  xgs :: "32 word"
  orig_eax :: "32 word"
  eip :: "32 word"
  xcs :: "32 word"
  x86_eflags :: "32 word"
  esp :: "32 word"
  xss :: "32 word"

record X64_user_regs_struct =
  r15 :: "64 word"
  r14 :: "64 word"
  r13 :: "64 word"
  r12 :: "64 word"
  rbp :: "64 word"
  rbx :: "64 word"
  r11 :: "64 word"
  r10 :: "64 word"
  r9 :: "64 word"
  r8 :: "64 word"
  rax :: "64 word"
  rcx :: "64 word"
  rdx :: "64 word"
  rsi :: "64 word"
  rdi :: "64 word"
  orig_rax :: "64 word"
  rip :: "64 word"
  cs :: "32 word"
  cs_upper :: "32 word"
  eflags :: "32 word"
  eflags_upper :: "32 word"
  rsp :: "64 word"
  ss :: "32 word"
  ss_upper :: "32 word"
  fs_base :: "64 word"
  gs_base :: "64 word"
  ds :: "32 word"
  ds_upper :: "32 word"
  es :: "32 word"
  es_upper :: "32 word"
  fs :: "32 word"
  fs_upper :: "32 word"
  gs :: "32 word"
  gs_upper :: "32 word"

text \<open>
  \<open>Registers\<close> is a tagged union: \<open>arch_\<close> selects which member of the union \<open>u\<close>
  is meaningful, and every function below dispatches on it (\<open>RR_ARCH_FUNCTION\<close>).
\<close>

datatype SupportedArch = x86 | x86_64

datatype Registers = X86Regs X86_user_regs_struct | X64Regs X64_user_regs_struct

fun arch :: "Registers \<Rightarrow> SupportedArch" where
  "arch (X86Regs u) = x86"
| "arch (X64Regs u) = x86_64"

text \<open>
  \<open>offsetof(user_regs_struct, field)\<close> designates one field of the structure. The
  model names the field instead of giving its byte offset; \<open>pointer_into\<close> followed by
  \<open>memcpy(&val, ..., nbytes)\<close> into a zeroed \<open>uint64_t\<close> then reads that field
  zero-extended to 64 bits (little endian, \<open>nbytes\<close> being the size of the field).
\<close>

datatype x86_field =
  F_ebx | F_ecx | F_edx | F_esi | F_edi | F_ebp | F_eax | F_xds | F_xes | F_xfs | F_xgs
  | F_orig_eax | F_eip | F_xcs | F_eflags | F_esp | F_xss

datatype x64_field =
  G_r15 | G_r14 | G_r13 | G_r12 | G_rbp | G_rbx | G_r11 | G_r10 | G_r9 | G_r8 | G_rax
  | G_rcx | G_rdx | G_rsi | G_rdi | G_orig_rax | G_rip | G_cs | G_eflags | G_rsp | G_ss
  | G_fs_base | G_gs_base | G_ds | G_es | G_fs | G_gs

fun x86_load :: "x86_field \<Rightarrow> X86_user_regs_struct \<Rightarrow> 64 word" where
  "x86_load F_ebx u = ucast (ebx u)"
| "x86_load F_ecx u = ucast (ecx u)"
| "x86_load F_edx u = ucast (edx u)"
| "x86_load F_esi u = ucast (esi u)"
| "x86_load F_edi u = ucast (edi u)"
| "x86_load F_ebp u = ucast (ebp u)"
| "x86_load F_eax u = ucast (eax u)"
| "x86_load F_xds u = ucast (xds u)"
| "x86_load F_xes u = ucast (xes u)"
| "x86_load F_xfs u = ucast (xfs u)"
| "x86_load F_xgs u = ucast (xgs u)"
| "x86_load F_orig_eax u = ucast (orig_eax u)"
| "x86_load F_eip u = ucast (eip u)"
| "x86_load F_xcs u = ucast (xcs u)"
| "x86_load F_eflags u = ucast (x86_eflags u)"
| "x86_load F_esp u = ucast (esp u)"
| "x86_load F_xss u = ucast (xss u)"

fun x64_load :: "x64_field \<Rightarrow> X64_user_regs_struct \<Rightarrow> 64 word" where
  "x64_load G_r15 u = r15 u"
| "x64_load G_r14 u = r14 u"
| "x64_load G_r13 u = r13 u"
| "x64_load G_r12 u = r12 u"
| "x64_load G_rbp u = rbp u"
| "x64_load G_rbx u = rbx u"
| "x64_load G_r11 u = r11 u"
| "x64_load G_r10 u = r10 u"
| "x64_load G_r9 u = r9 u"
| "x64_load G_r8 u = r8 u"
| "x64_load G_rax u = rax u"
| "x64_load G_rcx u = rcx u"
| "x64_load G_rdx u = rdx u"
| "x64_load G_rsi u = rsi u"
| "x64_load G_rdi u = rdi u"
| "x64_load G_orig_rax u = orig_rax u"
| "x64_load G_rip u = rip u"
| "x64_load G_cs u = ucast (cs u)"
| "x64_load G_eflags u = ucast (eflags u)"
| "x64_load G_rsp u = rsp u"
| "x64_load G_ss u = ucast (ss u)"
| "x64_load G_fs_base u = fs_base u"
| "x64_load G_gs_base u = gs_base u"
| "x64_load G_ds u = ucast (ds u)"
| "x64_load G_es u = ucast (es u)"
| "x64_load G_fs u = ucast (fs u)"
| "x64_load G_gs u = ucast (gs u)"

subsection \<open>RegisterValue and the two register tables\<close>

record 'f RegisterValue =
  name :: string
  offset :: 'f
  nbytes :: nat
  comparison_mask :: "64 word"

definition mask_for_nbytes :: "nat \<Rightarrow> 64 word" where
  "mask_for_nbytes n = (if n = 8 then 0 else push_bit (n * 8) 1) - 1"

text \<open>The three-argument constructor: the mask covers the whole register.\<close>

definition RV :: "string \<Rightarrow> 'f \<Rightarrow> nat \<Rightarrow> 'f RegisterValue" where
  "RV nm off n = \<lparr>name = nm, offset = off, nbytes = n, comparison_mask = mask_for_nbytes n\<rparr>"

text \<open>The four-argument constructor: an explicit comparison mask.\<close>

definition RV_WITH_MASK :: "string \<Rightarrow> 'f \<Rightarrow> nat \<Rightarrow> 64 word \<Rightarrow> 'f RegisterValue" where
  "RV_WITH_MASK nm off n m = \<lparr>name = nm, offset = off, nbytes = n, comparison_mask = m\<rparr>"

definition X86_RESERVED_FLAG :: "64 word" where "X86_RESERVED_FLAG = push_bit 1 1"
definition X86_IF_FLAG :: "64 word" where "X86_IF_FLAG = push_bit 9 1"
definition X86_RF_FLAG :: "64 word" where "X86_RF_FLAG = push_bit 16 1"
definition X86_ID_FLAG :: "64 word" where "X86_ID_FLAG = push_bit 21 1"

text \<open>
  \<open>~uint32_t(...)\<close> is computed in 32 bits and then widened to \<open>uint64_t\<close> without sign
  extension.
\<close>

definition deterministic_eflags_mask :: "64 word" where
  "deterministic_eflags_mask =
     ucast (NOT (ucast (X86_RESERVED_FLAG OR X86_IF_FLAG OR X86_RF_FLAG OR X86_ID_FLAG)
                 :: 32 word))"

text \<open>
  The tables are arrays indexed by the debugger's register numbers; slots that the
  initializer list does not mention keep \<open>nbytes = 0\<close> and are skipped by every loop
  over the table. The model lists the initialised slots, in the order of the
  initializer list.
\<close>

definition x86_registers :: "x86_field RegisterValue list" where
  "x86_registers =
    [RV ''eax'' F_eax 4, RV ''ecx'' F_ecx 4, RV ''edx'' F_edx 4, RV ''ebx'' F_ebx 4,
     RV ''esp'' F_esp 4, RV ''ebp'' F_ebp 4, RV ''esi'' F_esi 4, RV ''edi'' F_edi 4,
     RV ''eip'' F_eip 4, RV_WITH_MASK ''eflags'' F_eflags 4 deterministic_eflags_mask,
     RV_WITH_MASK ''xcs'' F_xcs 4 0, RV_WITH_MASK ''xss'' F_xss 4 0,
     RV_WITH_MASK ''xds'' F_xds 4 0, RV_WITH_MASK ''xes'' F_xes 4 0, RV ''xfs'' F_xfs 4,
     RV ''xgs'' F_xgs 4,
     RV_WITH_MASK ''orig_eax'' F_orig_eax 4 0]"

definition x64_registers :: "x64_field RegisterValue list" where
  "x64_registers =
    [RV ''rax'' G_rax 8, RV ''rcx'' G_rcx 8, RV ''rdx'' G_rdx 8, RV ''rbx'' G_rbx 8,
     RV_WITH_MASK ''rsp'' G_rsp 8 0, RV ''rbp'' G_rbp 8, RV ''rsi'' G_rsi 8,
     RV ''rdi'' G_rdi 8, RV ''r8'' G_r8 8, RV ''r9'' G_r9 8, RV ''r10'' G_r10 8,
     RV ''r11'' G_r11 8, RV ''r12'' G_r12 8, RV ''r13'' G_r13 8, RV ''r14'' G_r14 8,
     RV ''r15'' G_r15 8, RV ''rip'' G_rip 8,
     RV_WITH_MASK ''eflags'' G_eflags 4 deterministic_eflags_mask,
     RV_WITH_MASK ''cs'' G_cs 4 0, RV_WITH_MASK ''ss'' G_ss 4 0,
     RV_WITH_MASK ''ds'' G_ds 4 0, RV_WITH_MASK ''es'' G_es 4 0,
     RV ''fs'' G_fs 4, RV ''gs'' G_gs 4,
     RV_WITH_MASK ''orig_rax'' G_orig_rax 8 0]"

subsection \<open>Comparing register files\<close>

text \<open>
  Every comparison that fails calls \<open>maybe_print_reg_mismatch\<close> with the register's
  name and clears \<open>match\<close> in the same branch. The functions below return the names
  passed to \<open>maybe_print_reg_mismatch\<close>, in call order; \<open>match\<close> is true exactly
  when that list is empty.
\<close>

fun compare_registers_core ::
  "'f RegisterValue list \<Rightarrow> ('f \<Rightarrow> 'r \<Rightarrow> 64 word) \<Rightarrow> 'r \<Rightarrow> 'r \<Rightarrow> string list" where
  "compare_registers_core [] load reg1 reg2 = []"
| "compare_registers_core (rv # rvs) load reg1 reg2 =
     (if nbytes rv = 0 then compare_registers_core rvs load reg1 reg2
      else if comparison_mask rv = 0 then compare_registers_core rvs load reg1 reg2
      else
        (let val1 = load (offset rv) reg1; val2 = load (offset rv) reg2 in
         if (val1 XOR val2) AND comparison_mask rv \<noteq> 0
         then name rv # compare_registers_core rvs load reg1 reg2
         else compare_registers_core rvs load reg1 reg2))"

text \<open>The macro \<open>REGCMP\<close>: compare one field of the two structures exactly.\<close>

definition REGCMP :: "string \<Rightarrow> 'a \<Rightarrow> 'a \<Rightarrow> string list" where
  "REGCMP nm v1 v2 = (if v1 \<noteq> v2 then [nm] else [])"

definition compare_registers_arch_x86 ::
  "X86_user_regs_struct \<Rightarrow> X86_user_regs_struct \<Rightarrow> string list" where
  "compare_registers_arch_x86 reg1 reg2 =
     compare_registers_core x86_registers x86_load reg1 reg2 @
     (if 0 \<le> sint (orig_eax reg1) \<or> 0 \<le> sint (orig_eax reg2)
      then REGCMP ''orig_eax'' (orig_eax reg1) (orig_eax reg2) else [])"

definition compare_registers_arch_x64 ::
  "X64_user_regs_struct \<Rightarrow> X64_user_regs_struct \<Rightarrow> string list" where
  "compare_registers_arch_x64 reg1 reg2 =
     compare_registers_core x64_registers x64_load reg1 reg2 @
     (if 0 \<le> sint (orig_rax reg1) \<or> 0 \<le> sint (orig_rax reg2)
      then REGCMP ''orig_rax'' (orig_rax reg1) (orig_rax reg2) else []) @
     REGCMP ''cs_upper'' (cs_upper reg1) (cs_upper reg2) @
     REGCMP ''ds_upper'' (ds_upper reg1) (ds_upper reg2) @
     REGCMP ''es_upper'' (es_upper reg1) (es_upper reg2) @
     REGCMP ''fs_upper'' (fs_upper reg1) (fs_upper reg2) @
     REGCMP ''gs_upper'' (gs_upper reg1) (gs_upper reg2) @
     REGCMP ''ss_upper'' (ss_upper reg1) (ss_upper reg2) @
     REGCMP ''eflags_upper'' (eflags_upper reg1) (eflags_upper reg2)"

datatype MismatchBehavior = EXPECT_MISMATCHES | LOG_MISMATCHES | BAIL_ON_MISMATCH

datatype reg_error = ArchAssertion | FatalRegisterMismatch "string list"

text \<open>
  \<open>compare_register_files_internal\<close> asserts that both files have the same
  architecture and dispatches on it.
\<close>

fun compare_register_files_internal :: "Registers \<Rightarrow> Registers \<Rightarrow> reg_error + string list" where
  "compare_register_files_internal (X86Regs reg1) (X86Regs reg2) =
     Inr (compare_registers_arch_x86 reg1 reg2)"
| "compare_register_files_internal (X64Regs reg1) (X64Regs reg2) =
     Inr (compare_registers_arch_x64 reg1 reg2)"
| "compare_register_files_internal reg1 reg2 = Inl ArchAssertion"

text \<open>
  \<open>compare_register_files\<close> returns \<open>match\<close>, together with the mismatches reported on
  the way; with \<open>BAIL_ON_MISMATCH\<close> a mismatch trips the \<open>ASSERT\<close> and is fatal.
\<close>

definition compare_register_files ::
  "Registers \<Rightarrow> Registers \<Rightarrow> MismatchBehavior \<Rightarrow> reg_error + (bool \<times> string list)" where
  "compare_register_files reg1 reg2 mismatch_behavior =
     (case compare_register_files_internal reg1 reg2 of
        Inl e \<Rightarrow> Inl e
      | Inr ms \<Rightarrow>
          (let match = (ms = []) in
           if mismatch_behavior = BAIL_ON_MISMATCH \<and> \<not> match
           then Inl (FatalRegisterMismatch ms)
           else Inr (match, ms)))"

text \<open>The constructor of \<open>Registers\<close> clears the whole union with \<open>memset\<close>.\<close>

definition x86_zero :: X86_user_regs_struct where
  "x86_zero = \<lparr>ebx = 0, ecx = 0, edx = 0, esi = 0, edi = 0, ebp = 0, eax = 0, xds = 0,
     xes = 0, xfs = 0, xgs = 0, orig_eax = 0, eip = 0, xcs = 0, x86_eflags = 0, esp = 0,
     xss = 0\<rparr>"

definition x64_zero :: X64_user_regs_struct where
  "x64_zero = \<lparr>r15 = 0, r14 = 0, r13 = 0, r12 = 0, rbp = 0, rbx = 0, r11 = 0, r10 = 0,
     r9 = 0, r8 = 0, rax = 0, rcx = 0, rdx = 0, rsi = 0, rdi = 0, orig_rax = 0, rip = 0,
     cs = 0, cs_upper = 0, eflags = 0, eflags_upper = 0, rsp = 0, ss = 0, ss_upper = 0,
     fs_base = 0, gs_base = 0, ds = 0, ds_upper = 0, es = 0, es_upper = 0, fs = 0,
     fs_upper = 0, gs = 0, gs_upper = 0\<rparr>"

section \<open>Syscall buffering in the tracee: preload/preload.c\<close>

text \<open>
  The ring header and a record, with the fields that preload.c reads and writes. Flags
  are stored as the integers the code stores (0 or 1) and tested for being nonzero.
\<close>

record syscallbuf_hdr =
  num_rec_bytes :: int
  abort_commit :: nat
  locked :: nat
  desched_signal_may_be_relevant :: nat
  notify_on_syscall_hook_exit :: nat

record syscallbuf_record =
  ret :: int
  syscallno :: int
  desched :: bool
  rec_size :: int

text \<open>
  What the tracer and the kernel can observe of a transaction, in program order: every
  store to the shared ring, the two \<open>ioctl\<close>s on the desched counter, the system call
  instructions, and the ways the library stops the process.
\<close>

datatype action =
    Store_locked nat
  | Store_desched_signal_may_be_relevant nat
  | Store_abort_commit nat
  | Store_num_rec_bytes int
  | Store_rec_syscallno int
  | Store_rec_desched bool
  | Store_rec_size int
  | Store_rec_ret int
  | Ioctl_ENABLE
  | Ioctl_DISABLE
  | Untraced_syscall int
  | Traced_syscall int
  | Local_memcpy
  | Breakpoint_function
  | Assertion_failed
  | Fatal_exit

text \<open>
  The thread's state: \<open>buffer\<close> is the address of the mapped segment (0 when buffering
  is off), whose first bytes are the header; the record area follows. \<open>records\<close> gives
  the record found at each byte offset of the record area, so that the pointer
  \<open>rec = buffer_last()\<close> taken at the start of a function keeps designating the same
  record after \<open>num_rec_bytes\<close> has moved. \<open>trace\<close> collects the actions, oldest first.
\<close>

record preload_state =
  buffer :: int
  hdr :: syscallbuf_hdr
  records :: "int \<Rightarrow> syscallbuf_record"
  trace :: "action list"

text \<open>
  The declarations of preload\_interface.h that preload.c uses (the sizes of the two
  structures, the size of the mapped segment, the size of the per-fd table and the
  rounding function \<open>stored_record_size\<close>) are parameters of the model, together with
  what the kernel and the tracer contribute to a run: the result of each \<open>ioctl\<close> on
  the desched counter, the results of the untraced and the traced system call, whether
  the library runs under replay, the table \<open>syscallbuf_fds_disabled\<close>, whether the
  tracer sets \<open>abort_commit\<close> while the thread is inside the untraced system call, and
  whether the library was built with \<open>NDEBUG\<close>.
\<close>

record preload_env =
  sizeof_hdr :: int
  sizeof_record :: int
  SYSCALLBUF_BUFFER_SIZE :: int
  SYSCALLBUF_FDS_DISABLED_SIZE :: int
  stored_record_size :: "int \<Rightarrow> int"
  ioctl_enable_ret :: int
  ioctl_disable_ret :: int
  untraced_ret :: int
  traced_ret :: int
  in_replay :: bool
  syscallbuf_fds_disabled :: "int \<Rightarrow> bool"
  tracer_aborts_commit :: bool
  NDEBUG :: bool

datatype 'a outcome = Returns 'a | Process_exits | Process_aborts

definition emit :: "action \<Rightarrow> preload_state \<Rightarrow> preload_state" where
  "emit a s = s\<lparr>trace := trace s @ [a]\<rparr>"

definition store_locked :: "nat \<Rightarrow> preload_state \<Rightarrow> preload_state" where
  "store_locked v s = emit (Store_locked v) (s\<lparr>hdr := (hdr s)\<lparr>locked := v\<rparr>\<rparr>)"

definition store_desched_signal_may_be_relevant :: "nat \<Rightarrow> preload_state \<Rightarrow> preload_state" where
  "store_desched_signal_may_be_relevant v s =
     emit (Store_desched_signal_may_be_relevant v)
       (s\<lparr>hdr := (hdr s)\<lparr>desched_signal_may_be_relevant := v\<rparr>\<rparr>)"

definition store_abort_commit :: "nat \<Rightarrow> preload_state \<Rightarrow> preload_state" where
  "store_abort_commit v s = emit (Store_abort_commit v) (s\<lparr>hdr := (hdr s)\<lparr>abort_commit := v\<rparr>\<rparr>)"

definition store_num_rec_bytes :: "int \<Rightarrow> preload_state \<Rightarrow> preload_state" where
  "store_num_rec_bytes v s = emit (Store_num_rec_bytes v) (s\<lparr>hdr := (hdr s)\<lparr>num_rec_bytes := v\<rparr>\<rparr>)"

text \<open>Stores through the pointer \<open>rec\<close>, the record at offset \<open>k\<close> of the record area.\<close>

definition store_rec_syscallno :: "int \<Rightarrow> int \<Rightarrow> preload_state \<Rightarrow> preload_state" where
  "store_rec_syscallno k v s =
     emit (Store_rec_syscallno v) (s\<lparr>records := (records s)(k := (records s k)\<lparr>syscallno := v\<rparr>)\<rparr>)"

definition store_rec_desched :: "int \<Rightarrow> bool \<Rightarrow> preload_state \<Rightarrow> preload_state" where
  "store_rec_desched k v s =
     emit (Store_rec_desched v) (s\<lparr>records := (records s)(k := (records s k)\<lparr>desched := v\<rparr>)\<rparr>)"

definition store_rec_size :: "int \<Rightarrow> int \<Rightarrow> preload_state \<Rightarrow> preload_state" where
  "store_rec_size k v s =
     emit (Store_rec_size v) (s\<lparr>records := (records s)(k := (records s k)\<lparr>rec_size := v\<rparr>)\<rparr>)"

definition store_rec_ret :: "int \<Rightarrow> int \<Rightarrow> preload_state \<Rightarrow> preload_state" where
  "store_rec_ret k v s =
     emit (Store_rec_ret v) (s\<lparr>records := (records s)(k := (records s k)\<lparr>ret := v\<rparr>)\<rparr>)"

text \<open>
  \<open>buffer_last\<close>: the byte just after the last valid record, that is the start of the
  record area plus \<open>num_rec_bytes\<close>. \<open>buffer_end\<close>: the byte just after the mapped
  segment.
\<close>

definition buffer_last :: "preload_env \<Rightarrow> preload_state \<Rightarrow> int" where
  "buffer_last env s = buffer s + sizeof_hdr env + num_rec_bytes (hdr s)"

definition buffer_end :: "preload_env \<Rightarrow> preload_state \<Rightarrow> int" where
  "buffer_end env s = buffer s + SYSCALLBUF_BUFFER_SIZE env"

text \<open>\<open>fatal\<close> logs and leaves with \<open>exit_group\<close>; a failed \<open>assert\<close> raises SIGABRT.\<close>

definition fatal :: "preload_state \<Rightarrow> 'a outcome \<times> preload_state" where
  "fatal s = (Process_exits, emit Fatal_exit s)"

definition assert_failed :: "preload_state \<Rightarrow> 'a outcome \<times> preload_state" where
  "assert_failed s = (Process_aborts, emit Assertion_failed s)"

definition prep_syscall :: "preload_env \<Rightarrow> preload_state \<Rightarrow> int \<times> preload_state" where
  "prep_syscall env s =
     (if buffer s = 0 then (0, s)
      else if locked (hdr s) \<noteq> 0 then (0, s)
      else let s1 = store_locked 1 s in (buffer_last env s1 + sizeof_record env, s1))"

definition prep_syscall_for_fd :: "preload_env \<Rightarrow> int \<Rightarrow> preload_state \<Rightarrow> int \<times> preload_state" where
  "prep_syscall_for_fd env fd s =
     (if fd < 0 \<or> fd \<ge> SYSCALLBUF_FDS_DISABLED_SIZE env \<or> syscallbuf_fds_disabled env fd
      then (0, s) else prep_syscall env s)"

definition arm_desched_event :: "preload_env \<Rightarrow> preload_state \<Rightarrow> unit outcome \<times> preload_state" where
  "arm_desched_event env s =
     (let s1 = emit Ioctl_ENABLE s in
      if ioctl_enable_ret env \<noteq> 0 then fatal s1 else (Returns (), s1))"

definition disarm_desched_event :: "preload_env \<Rightarrow> preload_state \<Rightarrow> unit outcome \<times> preload_state" where
  "disarm_desched_event env s =
     (let s1 = emit Ioctl_DISABLE s in
      if ioctl_disable_ret env \<noteq> 0 then fatal s1 else (Returns (), s1))"

datatype blockness = MAY_BLOCK | WONT_BLOCK

definition start_commit_buffered_syscall ::
  "preload_env \<Rightarrow> int \<Rightarrow> int \<Rightarrow> blockness \<Rightarrow> preload_state \<Rightarrow> int outcome \<times> preload_state" where
  "start_commit_buffered_syscall env no record_end blk s =
     (if buffer s = 0 then (Returns 0, s)
      else
        let k = num_rec_bytes (hdr s);
            record_start = buffer_last env s;
            stored_end = record_start + stored_record_size env (record_end - record_start)
        in
        if stored_end < record_start + sizeof_record env then (Returns 0, s)
        else if stored_end > buffer_end env s - sizeof_record env
        then (Returns 0, store_locked 0 s)
        else
          let s1 = store_rec_syscallno k no s;
              s2 = store_rec_desched k (blk = MAY_BLOCK) s1;
              s3 = store_rec_size k (record_end - record_start) s2
          in
          if desched (records s3 k)
          then
            (let s4 = store_desched_signal_may_be_relevant 1 s3 in
             case arm_desched_event env s4 of
               (Returns u, s5) \<Rightarrow> (Returns 1, s5)
             | (Process_exits, s5) \<Rightarrow> (Process_exits, s5)
             | (Process_aborts, s5) \<Rightarrow> (Process_aborts, s5))
          else (Returns 1, s3))"

text \<open>
  The tail of \<open>commit_raw_syscall\<close>, after the record's return value has been settled:
  disarm the counter for a may-block record, unlock, call the breakpoint function if one
  was chosen, and return \<open>ret\<close>.
\<close>

definition commit_finish ::
  "preload_env \<Rightarrow> int \<Rightarrow> bool \<Rightarrow> int \<Rightarrow> preload_state \<Rightarrow> int outcome \<times> preload_state" where
  "commit_finish env k breakpoint_function r s =
     (case (if desched (records s k) then disarm_desched_event env s else (Returns (), s)) of
        (Returns u, s1) \<Rightarrow>
          (let s2 = store_locked 0 s1;
               s3 = (if breakpoint_function then emit Breakpoint_function s2 else s2)
           in (Returns r, s3))
      | (Process_exits, s1) \<Rightarrow> (Process_exits, s1)
      | (Process_aborts, s1) \<Rightarrow> (Process_aborts, s1))"

text \<open>
  \<open>commit_raw_syscall\<close>. The breakpoint function is an entry of the library's own
  breakpoint table, hence a non-null pointer whenever the commit is not aborted.
\<close>

definition commit_raw_syscall ::
  "preload_env \<Rightarrow> int \<Rightarrow> int \<Rightarrow> int \<Rightarrow> preload_state \<Rightarrow> int outcome \<times> preload_state" where
  "commit_raw_syscall env no record_end r s =
     (let k = num_rec_bytes (hdr s);
          record_start = buffer_last env s
      in
      if \<not> NDEBUG env \<and> \<not> (record_end \<ge> record_start) then assert_failed s
      else
        let s1 = store_rec_size k (record_end - record_start) s in
        if \<not> NDEBUG env \<and> locked (hdr s1) = 0 then assert_failed s1
        else
          let s2 = store_desched_signal_may_be_relevant 0 s1 in
          if syscallno (records s2 k) \<noteq> no then fatal s2
          else if abort_commit (hdr s2) \<noteq> 0
          then
            (let s3 = store_abort_commit 0 s2;
                 s4 = store_rec_ret k 0 s3
             in commit_finish env k False r s4)
          else
            (let s3 = store_rec_ret k r s2;
                 s4 = store_num_rec_bytes
                        (num_rec_bytes (hdr s3) +
                         stored_record_size env (rec_size (records s3 k))) s3
             in commit_finish env k True r s4))"

text \<open>
  \<open>untraced_syscall_base\<close>: the system call instruction, then the conditional move that
  replaces the result by \<open>rec->ret\<close> under replay. While the thread is inside a
  may-block system call the tracer may process a desched event and set \<open>abort_commit\<close>.
\<close>

definition untraced_syscall_base :: "preload_env \<Rightarrow> int \<Rightarrow> preload_state \<Rightarrow> int \<times> preload_state" where
  "untraced_syscall_base env no s =
     (let k = num_rec_bytes (hdr s);
          s1 = emit (Untraced_syscall no) s;
          s2 = (if tracer_aborts_commit env then s1\<lparr>hdr := (hdr s1)\<lparr>abort_commit := 1\<rparr>\<rparr> else s1)
      in (if in_replay env then ret (records s2 k) else untraced_ret env, s2))"

definition traced_raw_syscall :: "preload_env \<Rightarrow> int \<Rightarrow> preload_state \<Rightarrow> int outcome \<times> preload_state" where
  "traced_raw_syscall env no s = (Returns (traced_ret env), emit (Traced_syscall no) s)"

definition copy_output_buffer :: "int \<Rightarrow> int \<Rightarrow> int \<Rightarrow> int \<Rightarrow> preload_state \<Rightarrow> int \<times> preload_state" where
  "copy_output_buffer ret_size ptr buf buf2 s =
     (if buf2 = 0 then (ptr, s)
      else if ret_size \<le> 0 then (buf2, s)
      else (buf2 + ret_size, emit Local_memcpy s))"

text \<open>
  \<open>sys_read\<close>, a may-block buffered system call: \<open>call_no\<close> is \<open>call->no\<close>, and
  \<open>fd\<close>, \<open>buf\<close> and \<open>count\<close> are the three arguments of the call. \<open>SYS_read\<close> is
  given its i386 number.
\<close>

definition SYS_read :: int where "SYS_read = 3"

definition sys_read ::
  "preload_env \<Rightarrow> int \<Rightarrow> int \<Rightarrow> int \<Rightarrow> int \<Rightarrow> preload_state \<Rightarrow> int outcome \<times> preload_state" where
  "sys_read env call_no fd buf count s =
     (let (ptr0, s1) = prep_syscall_for_fd env fd s in
      if \<not> NDEBUG env \<and> SYS_read \<noteq> call_no then assert_failed s1
      else
        let buf2 = (if buf \<noteq> 0 \<and> count > 0 then ptr0 else 0);
            ptr = (if buf \<noteq> 0 \<and> count > 0 then ptr0 + count else ptr0)
        in
        case start_commit_buffered_syscall env SYS_read ptr MAY_BLOCK s1 of
          (Returns ok, s2) \<Rightarrow>
            if ok = 0 then traced_raw_syscall env call_no s2
            else
              (let (r, s3) = untraced_syscall_base env SYS_read s2;
                   (ptr', s4) = copy_output_buffer r ptr buf buf2 s3
               in commit_raw_syscall env SYS_read ptr' r s4)
        | (Process_exits, s2) \<Rightarrow> (Process_exits, s2)
        | (Process_aborts, s2) \<Rightarrow> (Process_aborts, s2))"

text \<open>The actions that a call appends to the trace.\<close>

definition new_actions :: "preload_state \<Rightarrow> preload_state \<Rightarrow> action list" where
  "new_actions s s' = drop (length (trace s)) (trace s')"

text \<open>
  The steps of the desched protocol as they appear in a trace: the stores to
  \<open>desched_signal_may_be_relevant\<close>, the two \<open>ioctl\<close>s and the untraced system call.
\<close>

fun desched_step :: "action \<Rightarrow> bool" where
  "desched_step (Store_desched_signal_may_be_relevant v) = True"
| "desched_step Ioctl_ENABLE = True"
| "desched_step Ioctl_DISABLE = True"
| "desched_step (Untraced_syscall n) = True"
| "desched_step a = False"

text \<open>
  What a wrapper of a buffered system call does between its calls of
  \<open>start_commit_buffered_syscall\<close>, \<open>untraced_syscall\<close> and \<open>commit_raw_syscall\<close>:
  it copies parameters into and out of the buffer (\<open>memcpy_input_parameter\<close>,
  \<open>local_memcpy\<close>, \<open>copy_output_buffer\<close>) and may call a breakpoint function. The
  header and the records stay as they are, and what is added to the trace holds no step
  of the desched protocol.
\<close>

definition copies_parameters :: "preload_state \<Rightarrow> preload_state \<Rightarrow> bool" where
  "copies_parameters s s' =
     (hdr s' = hdr s \<and> records s' = records s \<and> buffer s' = buffer s \<and>
      take (length (trace s)) (trace s') = trace s \<and>
      filter desched_step (new_actions s s') = [])"

text \<open>A concrete environment and thread state for running the functions.\<close>

definition env0 :: preload_env where
  "env0 = \<lparr>sizeof_hdr = 16, sizeof_record = 16, SYSCALLBUF_BUFFER_SIZE = 4096,
     SYSCALLBUF_FDS_DISABLED_SIZE = 1024,
     stored_record_size = (\<lambda>n. ((n + 3) div 4) * 4),
     ioctl_enable_ret = 0, ioctl_disable_ret = 0, untraced_ret = 10, traced_ret = 10,
     in_replay = False, syscallbuf_fds_disabled = (\<lambda>fd. False),
     tracer_aborts_commit = False, NDEBUG = False\<rparr>"

definition rec0 :: syscallbuf_record where
  "rec0 = \<lparr>ret = 0, syscallno = 0, desched = False, rec_size = 0\<rparr>"

definition state0 :: preload_state where
  "state0 = \<lparr>buffer = 65536,
     hdr = \<lparr>num_rec_bytes = 0, abort_commit = 0, locked = 0,
            desched_signal_may_be_relevant = 0, notify_on_syscall_hook_exit = 0\<rparr>,
     records = (\<lambda>k. rec0), trace = []\<rparr>"

text \<open>
  The thread state in the middle of a may-block transaction: the buffer is locked and the
  record at offset 0 has been started for system call 3.
\<close>

definition state1 :: preload_state where
  "state1 = state0\<lparr>hdr := (hdr state0)\<lparr>locked := 1\<rparr>,
     records := (records state0)(0 := \<lparr>ret = 0, syscallno = 3, desched = True, rec_size = 116\<rparr>)\<rparr>"

text \<open>The same state after the tracer has asked for the commit to be aborted.\<close>

definition state1_aborting :: preload_state where
  "state1_aborting = state1\<lparr>hdr := (hdr state1)\<lparr>abort_commit := 1\<rparr>\<rparr>"

text \<open>The thread state after \<open>prep_syscall\<close>: the buffer is locked, no record is started.\<close>

definition state_locked :: preload_state where
  "state_locked = state0\<lparr>hdr := (hdr state0)\<lparr>locked := 1\<rparr>\<rparr>"

section \<open>The memory map and its iterator: AddressSpace.h\<close>

text \<open>
  A \<open>remote_ptr\<close> is an address of the tracee, an unsigned 64-bit integer: arithmetic
  wraps and comparison is unsigned.
\<close>

type_synonym remote_ptr = "64 word"

text \<open>
  \<open>MemoryRange\<close> is the half-open range \<open>[start, end)\<close>; \<open>KernelMapping\<close> derives from
  it and adds what the kernel knows about the mapping.
\<close>

record MemoryRange =
  range_start :: remote_ptr
  range_end :: remote_ptr

record KernelMapping = MemoryRange +
  fsname :: string
  device :: nat
  inode :: nat
  prot :: "32 word"
  flags :: "32 word"
  file_offset_bytes :: "64 word"

definition PROT_READ :: "32 word" where "PROT_READ = 1"
definition PROT_WRITE :: "32 word" where "PROT_WRITE = 2"
definition PROT_EXEC :: "32 word" where "PROT_EXEC = 4"
definition MAP_SHARED :: "32 word" where "MAP_SHARED = 1"
definition MAP_PRIVATE :: "32 word" where "MAP_PRIVATE = 2"
definition MAP_ANONYMOUS :: "32 word" where "MAP_ANONYMOUS = 0x20"
definition MAP_GROWSDOWN :: "32 word" where "MAP_GROWSDOWN = 0x100"
definition MAP_NORESERVE :: "32 word" where "MAP_NORESERVE = 0x4000"
definition MAP_STACK :: "32 word" where "MAP_STACK = 0x20000"

definition map_flags_mask :: "32 word" where
  "map_flags_mask =
     MAP_ANONYMOUS OR MAP_NORESERVE OR MAP_PRIVATE OR MAP_SHARED OR MAP_STACK OR MAP_GROWSDOWN"

text \<open>The range of a mapping, as the base-class part of the object.\<close>

definition range_of :: "KernelMapping \<Rightarrow> MemoryRange" where
  "range_of km = \<lparr>range_start = range_start km, range_end = range_end km\<rparr>"

text \<open>
  \<open>KernelMapping::set_prot\<close> builds a new mapping through the constructor, which masks
  the flags with \<open>map_flags_mask\<close> and keeps everything else.
\<close>

definition set_prot :: "KernelMapping \<Rightarrow> 32 word \<Rightarrow> KernelMapping" where
  "set_prot km p = km\<lparr>prot := p, flags := flags km AND map_flags_mask\<rparr>"

text \<open>\<open>Mapping\<close>: the current mapping and the one seen during recording.\<close>

record Mapping =
  map_km :: KernelMapping
  recorded_map :: KernelMapping

text \<open>
  Modelled from the spec: \<open>MemoryRange::intersects\<close> is declared in MemoryRange.h, which
  is not among the sources. Two ranges intersect when they share a byte, so an empty
  range intersects nothing.
\<close>

definition intersects :: "MemoryRange \<Rightarrow> MemoryRange \<Rightarrow> bool" where
  "intersects a b = (max (range_start a) (range_start b) < min (range_end a) (range_end b))"

definition MappingComparator :: "MemoryRange \<Rightarrow> MemoryRange \<Rightarrow> bool" where
  "MappingComparator a b = (if intersects a b then False else range_start a < range_start b)"

text \<open>
  \<open>MemoryMap\<close> is a \<open>std::map\<close> from ranges to mappings, ordered by
  \<open>MappingComparator\<close>. The model keeps its entries as a list in container order. A
  position in the container is an index into that list; the length of the list is
  \<open>end()\<close>. \<open>lower_bound\<close> is the first entry that the comparator does not put before
  the key.
\<close>

type_synonym MemoryMap = "(MemoryRange \<times> Mapping) list"

definition lower_bound :: "MemoryMap \<Rightarrow> MemoryRange \<Rightarrow> nat" where
  "lower_bound mem key = length (takeWhile (\<lambda>e. MappingComparator (fst e) key) mem)"

text \<open>
  The representation invariant of an address space's map: the entries are in address
  order and do not overlap, no entry is empty, and each key is the range of the mapping
  stored under it.
\<close>

definition mem_valid :: "MemoryMap \<Rightarrow> bool" where
  "mem_valid mem =
     (sorted_wrt (\<lambda>a b. range_end a \<le> range_start b) (map fst mem) \<and>
      (\<forall>r \<in> set (map fst mem). range_start r < range_end r) \<and>
      map (\<lambda>e. range_of (map_km (snd e))) mem = map fst mem)"

text \<open>
  Modelled from the spec: \<open>AddressSpace::has_mapping\<close> and \<open>AddressSpace::mapping_of\<close>
  are defined in AddressSpace.cc, which is not among the sources. Their declarations
  say: true if there is some mapping for the byte at \<open>addr\<close>; the mapping for the byte at
  \<open>addr\<close>, which must exist.
\<close>

definition contains_byte :: "MemoryRange \<Rightarrow> remote_ptr \<Rightarrow> bool" where
  "contains_byte r addr = (range_start r \<le> addr \<and> addr < range_end r)"

definition has_mapping :: "MemoryMap \<Rightarrow> remote_ptr \<Rightarrow> bool" where
  "has_mapping mem addr = (find (\<lambda>e. contains_byte (fst e) addr) mem \<noteq> None)"

definition mapping_of :: "MemoryMap \<Rightarrow> remote_ptr \<Rightarrow> Mapping option" where
  "mapping_of mem addr = map_option snd (find (\<lambda>e. contains_byte (fst e) addr) mem)"

subsection \<open>Maps::iterator\<close>

text \<open>
  The iterator stores an address and a flag, not a container position. The reference
  \<open>outer\<close> to the map is an argument of each operation, so that the map can change
  between two operations. The iterator made by \<open>end()\<close> leaves \<open>ptr\<close> default
  constructed.
\<close>

record iterator =
  ptr :: remote_ptr
  at_end :: bool

definition to_it :: "MemoryMap \<Rightarrow> iterator \<Rightarrow> nat" where
  "to_it outer it =
     (if at_end it then length outer
      else lower_bound outer \<lparr>range_start = ptr it, range_end = ptr it\<rparr>)"

text \<open>\<open>operator*\<close> and \<open>operator->\<close>; dereferencing the end position is an error.\<close>

definition deref :: "MemoryMap \<Rightarrow> iterator \<Rightarrow> Mapping option" where
  "deref outer it =
     (let i = to_it outer it in if i < length outer then Some (snd (outer ! i)) else None)"

text \<open>\<open>operator++\<close>: move the stored address to the end of the current mapping.\<close>

definition incr :: "MemoryMap \<Rightarrow> iterator \<Rightarrow> iterator option" where
  "incr outer it =
     (case deref outer it of
        None \<Rightarrow> None
      | Some m \<Rightarrow> Some (it\<lparr>ptr := range_end (map_km m)\<rparr>))"

definition it_eq :: "MemoryMap \<Rightarrow> iterator \<Rightarrow> iterator \<Rightarrow> bool" where
  "it_eq outer a b = (to_it outer a = to_it outer b)"

definition maps_begin :: "remote_ptr \<Rightarrow> iterator" where
  "maps_begin start = \<lparr>ptr = start, at_end = False\<rparr>"

definition maps_end :: iterator where
  "maps_end = \<lparr>ptr = 0, at_end = True\<rparr>"

text \<open>
  The boundary condition that links a stored address to a position: every entry before
  position \<open>i\<close> starts below \<open>p\<close>, and the entry at \<open>i\<close>, if any, starts at or above
  \<open>p\<close>.
\<close>

definition at_position :: "MemoryMap \<Rightarrow> remote_ptr \<Rightarrow> nat \<Rightarrow> bool" where
  "at_position mem p i =
     (i \<le> length mem \<and> (\<forall>j<i. range_start (fst (mem ! j)) < p) \<and>
      (i < length mem \<longrightarrow> p \<le> range_start (fst (mem ! i))))"

text \<open>
  The loop \<open>for (auto m : maps()) body\<close>, where the body may change the map: \<open>body m mem\<close>
  is the map after the body has run on the copy \<open>m\<close> of the current mapping. The
  function returns the mappings the loop has visited and the final map. For a map that
  breaks the representation invariant the loop need not end, hence the fuel.
\<close>

fun maps_for_each ::
  "nat \<Rightarrow> (Mapping \<Rightarrow> MemoryMap \<Rightarrow> MemoryMap) \<Rightarrow> MemoryMap \<Rightarrow> iterator \<Rightarrow>
   (Mapping list \<times> MemoryMap) option" where
  "maps_for_each 0 body mem it = None"
| "maps_for_each (Suc n) body mem it =
     (if it_eq mem it maps_end then Some ([], mem)
      else
        (case deref mem it of
           None \<Rightarrow> None
         | Some m \<Rightarrow>
             (let mem' = body m mem in
              case incr mem' it of
                None \<Rightarrow> None
              | Some it' \<Rightarrow>
                  (case maps_for_each n body mem' it' of
                     None \<Rightarrow> None
                   | Some (ms, mem'') \<Rightarrow> Some (m # ms, mem'')))))"

text \<open>
  A mutation that adds or removes no entry: the keys and the ranges of the stored
  mappings are the same before and after.
\<close>

definition same_layout :: "MemoryMap \<Rightarrow> MemoryMap \<Rightarrow> bool" where
  "same_layout mem mem' =
     (map fst mem' = map fst mem \<and>
      map (\<lambda>e. range_of (map_km (snd e))) mem' = map (\<lambda>e. range_of (map_km (snd e))) mem)"

text \<open>
  A protection change on the mapping stored under the key \<open>r\<close>, as a loop body would
  make on the mapping it has just been given.
\<close>

definition protect_entry :: "32 word \<Rightarrow> MemoryRange \<Rightarrow> MemoryMap \<Rightarrow> MemoryMap" where
  "protect_entry p r mem =
     map (\<lambda>e. if fst e = r then (fst e, (snd e)\<lparr>map_km := set_prot (map_km (snd e)) p\<rparr>) else e) mem"

section \<open>Choosing the scratch stack: AutoRemoteSyscalls.cc\<close>

definition is_usable_area :: "KernelMapping \<Rightarrow> bool" where
  "is_usable_area km =
     ((prot km AND (PROT_READ OR PROT_WRITE)) = (PROT_READ OR PROT_WRITE) \<and>
      (flags km AND MAP_PRIVATE) \<noteq> 0)"

text \<open>
  The search loop of \<open>maybe_fix_stack_pointer\<close>: the first usable mapping that the
  iteration meets, if any.
\<close>

fun find_stack :: "nat \<Rightarrow> MemoryMap \<Rightarrow> iterator \<Rightarrow> KernelMapping option option" where
  "find_stack 0 mem it = None"
| "find_stack (Suc n) mem it =
     (if it_eq mem it maps_end then Some None
      else
        (case deref mem it of
           None \<Rightarrow> None
         | Some m \<Rightarrow>
             if is_usable_area (map_km m) then Some (Some (map_km m))
             else (case incr mem it of None \<Rightarrow> None | Some it' \<Rightarrow> find_stack n mem it')))"

text \<open>
  What \<open>maybe_fix_stack_pointer\<close> does to \<open>initial_regs\<close>: nothing, or \<open>set_sp\<close>. The
  \<open>ASSERT\<close> that a stack area was found is fatal.
\<close>

datatype stack_fix = No_fix | Set_sp remote_ptr

datatype remote_error = No_stack_area_found

definition maybe_fix_stack_pointer ::
  "nat \<Rightarrow> bool \<Rightarrow> remote_ptr \<Rightarrow> MemoryMap \<Rightarrow> (remote_error + stack_fix) option" where
  "maybe_fix_stack_pointer fuel done_initial_exec sp mem =
     (if \<not> done_initial_exec then Some (Inr No_fix)
      else
        let last_stack_byte = sp - 1 in
        if has_mapping mem last_stack_byte \<and>
           (case mapping_of mem last_stack_byte of
              None \<Rightarrow> False
            | Some m \<Rightarrow> is_usable_area (map_km m) \<and> range_start (map_km m) + 2048 \<le> sp)
        then Some (Inr No_fix)
        else
          (case find_stack fuel mem (maps_begin 0) of
             None \<Rightarrow> None
           | Some None \<Rightarrow> Some (Inl No_stack_area_found)
           | Some (Some found_stack) \<Rightarrow>
               if range_start found_stack = 0 then Some (Inl No_stack_area_found)
               else Some (Inr (Set_sp (range_end found_stack)))))"

text \<open>"Private and writable", the usability predicate in the words of claim C7.\<close>

definition private_and_writable :: "KernelMapping \<Rightarrow> bool" where
  "private_and_writable km = ((prot km AND PROT_WRITE) \<noteq> 0 \<and> (flags km AND MAP_PRIVATE) \<noteq> 0)"

text \<open>Concrete mappings and maps for running the functions.\<close>

definition mk_mapping :: "remote_ptr \<Rightarrow> remote_ptr \<Rightarrow> 32 word \<Rightarrow> 32 word \<Rightarrow> MemoryRange \<times> Mapping" where
  "mk_mapping s e p f =
     (\<lparr>range_start = s, range_end = e\<rparr>,
      \<lparr>map_km = \<lparr>range_start = s, range_end = e, fsname = [], device = 0, inode = 0,
                 prot = p, flags = f, file_offset_bytes = 0\<rparr>,
       recorded_map = \<lparr>range_start = s, range_end = e, fsname = [], device = 0, inode = 0,
                 prot = p, flags = f, file_offset_bytes = 0\<rparr>\<rparr>)"

definition mem_write_only :: MemoryMap where
  "mem_write_only = [mk_mapping 0x10000 0x20000 PROT_WRITE MAP_PRIVATE]"

definition mem_two :: MemoryMap where
  "mem_two = [mk_mapping 0x10000 0x20000 PROT_READ MAP_PRIVATE,
              mk_mapping 0x30000 0x40000 (PROT_READ OR PROT_WRITE) MAP_PRIVATE]"

text \<open>A private, readable and writable mapping that starts at address 0.\<close>

definition mem_at_zero :: MemoryMap where
  "mem_at_zero = [mk_mapping 0 0x20000 (PROT_READ OR PROT_WRITE) MAP_PRIVATE]"

section \<open>Opening a trace: TraceStream.h, TraceStream.cc\<close>

definition TRACE_VERSION :: int where "TRACE_VERSION = 41"

definition EX_DATAERR :: int where "EX_DATAERR = 65"

text \<open>
  The files of a trace directory, as far as the constructor reads them: the content of
  each file that can be opened for reading, by path.
\<close>

type_synonym file_system = "string \<Rightarrow> string option"

definition version_path :: "string \<Rightarrow> string" where
  "version_path trace_dir = trace_dir @ ''/version''"

definition args_env_path :: "string \<Rightarrow> string" where
  "args_env_path trace_dir = trace_dir @ ''/args_env''"

subsection \<open>Formatted input of an int\<close>

text \<open>
  \<open>vfile >> version\<close> on a stream in its default state: white space is skipped, an
  optional sign is read, then decimal digits up to the first character that is not a
  digit. Without any digit the extraction fails and stores 0; a value out of the range
  of \<open>int\<close> fails and stores the nearest bound. The result is \<open>vfile.fail()\<close> and the
  value left in \<open>version\<close>.
\<close>

definition isspace :: "char \<Rightarrow> bool" where
  "isspace c = (c \<in> {CHR '' '', CHR 0x09, CHR 0x0A, CHR 0x0B, CHR 0x0C, CHR 0x0D})"

definition isdigit :: "char \<Rightarrow> bool" where
  "isdigit c = (48 \<le> (of_char c :: nat) \<and> (of_char c :: nat) \<le> 57)"

definition digit_value :: "char \<Rightarrow> int" where
  "digit_value c = int (of_char c :: nat) - 48"

definition decimal :: "string \<Rightarrow> int" where
  "decimal digits = foldl (\<lambda>acc c. acc * 10 + digit_value c) 0 digits"

definition INT_MAX :: int where "INT_MAX = 2147483647"
definition INT_MIN :: int where "INT_MIN = - 2147483648"

definition extract_int :: "string \<Rightarrow> bool \<times> int" where
  "extract_int s =
     (let s1 = dropWhile isspace s;
          negative = (s1 \<noteq> [] \<and> hd s1 = CHR ''-'');
          s2 = (if s1 \<noteq> [] \<and> (hd s1 = CHR ''-'' \<or> hd s1 = CHR ''+'') then tl s1 else s1);
          digits = takeWhile isdigit s2
      in
      if digits = [] then (True, 0)
      else
        let v = (if negative then - decimal digits else decimal digits) in
        if v > INT_MAX then (True, INT_MAX)
        else if v < INT_MIN then (True, INT_MIN)
        else (False, v))"

subsection \<open>The constructor of TraceReader\<close>

text \<open>
  The two messages that the constructor prints on \<open>stderr\<close>, each with the arguments
  that its \<open>fprintf\<close> call passes for the conversions of the format string, in order.
\<close>

datatype fprintf_arg = Arg_s string | Arg_d int

datatype stderr_message =
    Version_file_not_found "fprintf_arg list"
  | Incompatible_version "fprintf_arg list"

fun message_args :: "stderr_message \<Rightarrow> fprintf_arg list" where
  "message_args (Version_file_not_found as) = as"
| "message_args (Incompatible_version as) = as"

text \<open>
  \<open>TraceFrame::Time\<close> counts trace frames; it is an unsigned 32-bit integer, as the
  bound \<open>UINT32_MAX\<close> that the replay command puts on \<open>--goto\<close> says.
\<close>

type_synonym Time = "32 word"

text \<open>
  \<open>TraceStream\<close>, the base of the reader and of the writer: the directory of the trace
  and the global time, which \<open>tick_time\<close> advances by one.
\<close>

record TraceStream =
  trace_dir :: string
  global_time :: Time


text \<open>
  What the reader holds once it is open: its directory, the global time (0, so that the
  first frame read brings it to 1), and the content of \<open>args_env\<close>, from which the
  constructor reads the working directory, the arguments, the environment and the cpu
  binding.
\<close>

record TraceReader = TraceStream +
  args_env :: string

datatype reader_result =
    Reader TraceReader
  | Exits int stderr_message
  | Reader_assertion_failed

text \<open>
  \<open>TraceReader::TraceReader(dir)\<close>. The empty string stands for the latest trace, whose
  path depends on the environment and is a parameter. Creating the readers of the five
  substreams does not end the process. The open of \<open>args_env\<close> is checked by an
  \<open>assert\<close>.
\<close>

definition TraceReader_open :: "file_system \<Rightarrow> string \<Rightarrow> string \<Rightarrow> reader_result" where
  "TraceReader_open file_sys latest_trace_symlink dir =
     (let tdir = (if dir = [] then latest_trace_symlink else dir);
          path = version_path tdir
      in
      case file_sys path of
        None \<Rightarrow> Exits EX_DATAERR (Version_file_not_found [Arg_s path, Arg_s path, Arg_s path])
      | Some content \<Rightarrow>
          (let (failed, version) = extract_int content in
           if failed \<or> TRACE_VERSION \<noteq> version
           then Exits EX_DATAERR
                  (Incompatible_version
                     [Arg_s path, Arg_d version, Arg_d TRACE_VERSION, Arg_s path, Arg_s path])
           else
             (case file_sys (args_env_path tdir) of
                None \<Rightarrow> Reader_assertion_failed
              | Some a \<Rightarrow> Reader \<lparr>trace_dir = tdir, global_time = 0, args_env = a\<rparr>)))"

text \<open>Trace directories for running the constructor.\<close>

definition fs_no_version :: file_system where
  "fs_no_version = (\<lambda>p. if p = ''/t/args_env'' then Some [] else None)"

definition fs_with_version :: "string \<Rightarrow> file_system" where
  "fs_with_version v =
     (\<lambda>p. if p = ''/t/version'' then Some v else if p = ''/t/args_env'' then Some [] else None)"

section \<open>Trace frames: Event.h, ExtraRegisters.h, CompressedWriter.cc, TraceStream.cc\<close>

subsection \<open>Events\<close>




datatype SyscallState = NO_SYSCALL | ENTERING_SYSCALL | PROCESSING_SYSCALL | EXITING_SYSCALL









subsection \<open>Extra registers\<close>

datatype Format = NONE | XSAVE






text \<open>
  The conversions between \<open>Format\<close> and \<open>char\<close> in the trace. A char that is the value
  of no enumerator has no defined conversion to \<open>Format\<close>.
\<close>

fun Format_to_char :: "Format \<Rightarrow> 8 word" where
  "Format_to_char NONE = 0"
| "Format_to_char XSAVE = 1"

definition Format_of_char :: "8 word \<Rightarrow> Format option" where
  "Format_of_char c = (if c = 0 then Some NONE else if c = 1 then Some XSAVE else None)"

subsection \<open>Frames\<close>




subsection \<open>The values of the events substream\<close>


subsection \<open>The compressed writer: CompressedWriter.cc\<close>













subsection \<open>Writing frames: TraceStream.cc\<close>















subsection \<open>Reading frames: TraceStream.cc\<close>


text \<open>
  Reading ends the run of the model when the substream does not hold the value that is
  read (what the frame then contains is not determined by the program), when a char is
  converted to \<open>Format\<close> that is the value of no enumerator, and when an assertion fails.
  Assertions are compiled out when \<open>NDEBUG\<close> is defined: \<open>ndebug\<close>.
\<close>

datatype frame_error = Read_failed | Undefined_Format | Frame_assertion_failed


definition and_then ::
  "frame_error + 'a \<Rightarrow> ('a \<Rightarrow> frame_error + 'b) \<Rightarrow> frame_error + 'b" where
  "and_then m k = (case m of Inl e \<Rightarrow> Inl e | Inr x \<Rightarrow> k x)"








subsection \<open>The claim, in the words of the specification\<close>






subsection \<open>A trace to run the model on\<close>


















section \<open>The replay command: ReplayCommand.cc\<close>

definition Time_max :: Time where "Time_max = - 1"

datatype process_created = CREATED_NONE | CREATED_EXEC | CREATED_FORK

record ReplayFlags =
  goto_event :: Time
  singlestep_to_event :: Time
  target_process :: int
  target_command :: string
  process_created_how :: process_created
  dont_launch_debugger :: bool
  dbg_port :: int
  gdb_command_file_path :: string
  gdb_binary_file_path :: string
  redirect :: bool

text \<open>The default constructor of \<open>ReplayFlags\<close>.\<close>

definition ReplayFlags_init :: ReplayFlags where
  "ReplayFlags_init =
     \<lparr>goto_event = 0, singlestep_to_event = 0, target_process = 0, target_command = [],
      process_created_how = CREATED_NONE, dont_launch_debugger = False, dbg_port = - 1,
      gdb_command_file_path = [], gdb_binary_file_path = ''gdb'', redirect = True\<rparr>"

text \<open>
  \<open>ParsedOption\<close> and the option parsers are declared in Command.h and main.h, which are not
  among the sources; the parsers are parameters of the model. Each takes the remaining
  arguments and, when it accepts, removes what it has consumed:
  \<open>parse_global_option\<close> gives the arguments left, \<open>parse_option\<close> the option and the
  arguments left, \<open>parse_optional_trace_dir\<close> the directory and the arguments left.
  \<open>verify_valid_int\<close> checks that the option's value is an integer within bounds.
\<close>

record ParsedOption =
  short_name :: char
  opt_value :: string
  int_value :: int

record command_line =
  parse_global_option :: "string list \<Rightarrow> string list option"
  parse_option :: "string list \<Rightarrow> (ParsedOption \<times> string list) option"
  verify_valid_int :: "ParsedOption \<Rightarrow> int \<Rightarrow> int \<Rightarrow> bool"
  parse_optional_trace_dir :: "string list \<Rightarrow> (string \<times> string list) option"

definition INT32_MAX :: int where "INT32_MAX = 2147483647"
definition UINT32_MAX :: int where "UINT32_MAX = 4294967295"

text \<open>
  \<open>parse_replay_arg\<close>: the result, the arguments left and the flags. When an integer
  option fails \<open>verify_valid_int\<close> the function returns false after \<open>parse_option\<close> has
  consumed the option. An option letter outside the table trips \<open>assert(0)\<close>: the
  result is \<open>None\<close>.
\<close>

definition parse_replay_arg ::
  "command_line \<Rightarrow> string list \<Rightarrow> ReplayFlags \<Rightarrow>
   (bool \<times> string list \<times> ReplayFlags) option" where
  "parse_replay_arg cl args rflags =
     (case parse_global_option cl args of
        Some args' \<Rightarrow> Some (True, args', rflags)
      | None \<Rightarrow>
          (case parse_option cl args of
             None \<Rightarrow> Some (False, args, rflags)
           | Some (opt, args') \<Rightarrow>
               if short_name opt = CHR ''a''
               then Some (True, args', rflags\<lparr>goto_event := Time_max, dont_launch_debugger := True\<rparr>)
               else if short_name opt = CHR ''d''
               then Some (True, args', rflags\<lparr>gdb_binary_file_path := opt_value opt\<rparr>)
               else if short_name opt = CHR ''f''
               then
                 (if \<not> verify_valid_int cl opt 1 INT32_MAX then Some (False, args', rflags)
                  else Some (True, args', rflags\<lparr>target_process := int_value opt,
                                                 process_created_how := CREATED_FORK\<rparr>))
               else if short_name opt = CHR ''g''
               then
                 (if \<not> verify_valid_int cl opt 1 UINT32_MAX then Some (False, args', rflags)
                  else Some (True, args', rflags\<lparr>goto_event := word_of_int (int_value opt)\<rparr>))
               else if short_name opt = CHR ''p''
               then
                 (if int_value opt > 0
                  then
                    (if \<not> verify_valid_int cl opt 1 INT32_MAX then Some (False, args', rflags)
                     else Some (True, args', rflags\<lparr>target_process := int_value opt,
                                                    process_created_how := CREATED_EXEC\<rparr>))
                  else Some (True, args', rflags\<lparr>target_command := opt_value opt,
                                                 process_created_how := CREATED_EXEC\<rparr>))
               else if short_name opt = CHR ''q''
               then Some (True, args', rflags\<lparr>redirect := False\<rparr>)
               else if short_name opt = CHR ''s''
               then
                 (if \<not> verify_valid_int cl opt 1 INT32_MAX then Some (False, args', rflags)
                  else Some (True, args', rflags\<lparr>dbg_port := int_value opt,
                                                 dont_launch_debugger := True\<rparr>))
               else if short_name opt = CHR ''t''
               then
                 (if \<not> verify_valid_int cl opt 1 INT32_MAX then Some (False, args', rflags)
                  else Some (True, args', rflags\<lparr>singlestep_to_event := word_of_int (int_value opt)\<rparr>))
               else if short_name opt = CHR ''x''
               then Some (True, args', rflags\<lparr>gdb_command_file_path := opt_value opt\<rparr>)
               else None))"

text \<open>
  The argument loop of \<open>ReplayCommand::run\<close>. It ends by printing the help text (and
  \<open>run\<close> returns 1), with the trace directory and the flags when all arguments are
  consumed, or in the failed assertion of \<open>parse_replay_arg\<close>. Nothing in this file
  makes the parsers consume an argument, hence the fuel.
\<close>

datatype args_result = Print_help | Args_ok string ReplayFlags | Args_assertion

fun parse_args ::
  "nat \<Rightarrow> command_line \<Rightarrow> string list \<Rightarrow> bool \<Rightarrow> string \<Rightarrow> ReplayFlags \<Rightarrow>
   args_result option" where
  "parse_args fuel cl [] found_dir tdir rflags = Some (Args_ok tdir rflags)"
| "parse_args 0 cl (a # args) found_dir tdir rflags = None"
| "parse_args (Suc n) cl (a # args) found_dir tdir rflags =
     (case parse_replay_arg cl (a # args) rflags of
        None \<Rightarrow> Some Args_assertion
      | Some (True, args', rflags') \<Rightarrow> parse_args n cl args' found_dir tdir rflags'
      | Some (False, args', rflags') \<Rightarrow>
          (if \<not> found_dir
           then
             (case parse_optional_trace_dir cl args' of
                Some (d, args'') \<Rightarrow> parse_args n cl args'' True d rflags'
              | None \<Rightarrow> Some Print_help)
           else Some Print_help))"

subsection \<open>Looking a process up in the trace\<close>

text \<open>
  The task events of a trace, as \<open>read_task_event\<close> returns them. At the end of the
  stream it returns an event of type \<open>NONE\<close> and the stream stops being good; that last
  event is \<open>eof_event\<close>, the default-constructed \<open>TraceTaskEvent\<close>, a parameter.
\<close>

datatype TaskEventType = TTE_NONE | TTE_CLONE | TTE_FORK | TTE_EXEC | TTE_EXIT

record TraceTaskEvent =
  tte_type :: TaskEventType
  tte_tid :: int
  cmd_line :: "string list"

text \<open>The events that the loop \<open>while (trace.good()) { e = trace.read_task_event(); ... }\<close> sees.\<close>

definition events_read :: "TraceTaskEvent list \<Rightarrow> TraceTaskEvent \<Rightarrow> TraceTaskEvent list" where
  "events_read tasks eof_event = tasks @ [eof_event]"

text \<open>
  \<open>cmd.substr(cmd.size() - command.size() - 1) == ('/' + command)\<close>, for a \<open>cmd\<close> longer
  than \<open>command\<close>.
\<close>

definition command_matches :: "string \<Rightarrow> string \<Rightarrow> bool" where
  "command_matches cmd command =
     (cmd = command \<or>
      (length cmd > length command \<and>
       drop (length cmd - length command - 1) cmd = CHR ''/'' # command))"

fun find_pid_loop :: "TraceTaskEvent list \<Rightarrow> string \<Rightarrow> int" where
  "find_pid_loop [] command = - 1"
| "find_pid_loop (e # evs) command =
     (if tte_type e \<noteq> TTE_EXEC then find_pid_loop evs command
      else if cmd_line e = [] then find_pid_loop evs command
      else if command_matches (hd (cmd_line e)) command then tte_tid e
      else find_pid_loop evs command)"

fun pid_exists_loop :: "TraceTaskEvent list \<Rightarrow> int \<Rightarrow> bool" where
  "pid_exists_loop [] pid = False"
| "pid_exists_loop (e # evs) pid = (if tte_tid e = pid then True else pid_exists_loop evs pid)"

fun pid_execs_loop :: "TraceTaskEvent list \<Rightarrow> int \<Rightarrow> bool" where
  "pid_execs_loop [] pid = False"
| "pid_execs_loop (e # evs) pid =
     (if tte_tid e = pid \<and> tte_type e = TTE_EXEC then True else pid_execs_loop evs pid)"

subsection \<open>How the command ends\<close>

datatype wait_status = W_exited int | W_signaled int | W_other

text \<open>
  What the operating system, the trace and the debugger server contribute to a run of
  the command: the environment variable, the files of the trace and its task events,
  whether \<open>assert_prerequisites\<close> and \<open>check_performance_settings\<close> let the command go
  on, whether the server's \<open>serve\<close> functions return, the results of \<open>pipe2\<close>,
  \<open>fork\<close> and \<open>sigaction\<close>, whether \<open>launch_gdb\<close> returns (it does not when it
  replaces the process by the debugger), and the successive results of \<open>waitpid\<close>: the
  value returned, whether \<open>errno\<close> is \<open>EINTR\<close>, and the status.
\<close>

record replay_world =
  RUNNING_UNDER_RR :: bool
  trace_files :: file_system
  latest_trace :: string
  task_events :: "TraceTaskEvent list"
  eof_task_event :: TraceTaskEvent
  prerequisites_ok :: bool
  serve_returns :: bool
  pipe2_ok :: bool
  fork_result :: int
  sigaction_ok :: bool
  launch_gdb_returns :: bool
  waitpid_results :: "(int \<times> bool \<times> wait_status) list"

datatype command_result =
    Returns_code int
  | Exit_status int
  | Fatal_error
  | Replaced_by_debugger

text \<open>
  The \<open>waitpid\<close> loop of the parent. \<open>None\<close>: the results run out while the loop is
  still waiting.
\<close>

fun wait_for_child :: "int \<Rightarrow> (int \<times> bool \<times> wait_status) list \<Rightarrow> command_result option" where
  "wait_for_child child [] = None"
| "wait_for_child child ((r, eintr, status) # rest) =
     (if child \<noteq> r then (if eintr then wait_for_child child rest else Some Fatal_error)
      else
        (case status of
           W_exited code \<Rightarrow> Some (Exit_status code)
         | W_signaled sig \<Rightarrow> Some (Exit_status 1)
         | W_other \<Rightarrow> wait_for_child child rest))"

definition replay :: "replay_world \<Rightarrow> string \<Rightarrow> ReplayFlags \<Rightarrow> command_result option" where
  "replay w tdir rflags =
     (if dont_launch_debugger rflags
      then (if serve_returns w then Some (Returns_code 0) else Some Fatal_error)
      else if \<not> pipe2_ok w then Some Fatal_error
      else if fork_result w = 0
      then
        (if \<not> sigaction_ok w then Some Fatal_error
         else if serve_returns w then Some (Returns_code 0) else Some Fatal_error)
      else if \<not> sigaction_ok w then Some Fatal_error
      else if \<not> launch_gdb_returns w then Some Replaced_by_debugger
      else wait_for_child (fork_result w) (waitpid_results w))"

text \<open>
  Each of the three look-ups opens the trace with its own \<open>TraceReader\<close>, whose
  constructor may end the process.
\<close>

definition with_trace ::
  "replay_world \<Rightarrow> string \<Rightarrow> (TraceTaskEvent list \<Rightarrow> command_result option) \<Rightarrow>
   command_result option" where
  "with_trace w tdir k =
     (case TraceReader_open (trace_files w) (latest_trace w) tdir of
        Reader r \<Rightarrow> k (events_read (task_events w) (eof_task_event w))
      | Exits code msg \<Rightarrow> Some (Exit_status code)
      | Reader_assertion_failed \<Rightarrow> Some Fatal_error)"

definition check_exec_and_replay ::
  "replay_world \<Rightarrow> string \<Rightarrow> ReplayFlags \<Rightarrow> command_result option" where
  "check_exec_and_replay w tdir rflags =
     (if \<not> prerequisites_ok w then Some Fatal_error else replay w tdir rflags)"

definition check_process_created ::
  "replay_world \<Rightarrow> string \<Rightarrow> ReplayFlags \<Rightarrow> command_result option" where
  "check_process_created w tdir rflags =
     (if process_created_how rflags \<noteq> CREATED_NONE
      then
        with_trace w tdir (\<lambda>evs.
          if \<not> pid_exists_loop evs (target_process rflags) then Some (Returns_code 2)
          else if process_created_how rflags = CREATED_EXEC
          then
            with_trace w tdir (\<lambda>evs'.
              if \<not> pid_execs_loop evs' (target_process rflags) then Some (Returns_code 2)
              else check_exec_and_replay w tdir rflags)
          else check_exec_and_replay w tdir rflags)
      else check_exec_and_replay w tdir rflags)"

definition run :: "nat \<Rightarrow> replay_world \<Rightarrow> command_line \<Rightarrow> string list \<Rightarrow> command_result option" where
  "run fuel w cl args =
     (if RUNNING_UNDER_RR w then Some (Returns_code 1)
      else
        (case parse_args fuel cl args False [] ReplayFlags_init of
           None \<Rightarrow> None
         | Some Print_help \<Rightarrow> Some (Returns_code 1)
         | Some Args_assertion \<Rightarrow> Some Fatal_error
         | Some (Args_ok tdir rflags) \<Rightarrow>
             if target_command rflags \<noteq> []
             then
               with_trace w tdir (\<lambda>evs.
                 let pid = find_pid_loop evs (target_command rflags) in
                 if pid \<le> 0 then Some (Returns_code 2)
                 else check_process_created w tdir (rflags\<lparr>target_process := pid\<rparr>))
             else check_process_created w tdir rflags))"

subsection \<open>The claim, in the words of the specification\<close>







section \<open>Verification\<close>

subsection \<open>Register comparison\<close>

lemma word_xor_eq_0: "((a :: 'a::len word) XOR b = 0) = (a = b)"
proof
  assume h: "a XOR b = 0"
  have "a XOR (a XOR b) = b" by (simp add: xor.assoc [symmetric])
  with h show "a = b" by simp
next
  assume "a = b" then show "a XOR b = 0" by simp
qed

lemma ucast_32_64_eq_0: "((ucast (x :: 32 word) :: 64 word) = 0) = (x = 0)"
proof
  assume "(ucast x :: 64 word) = 0"
  moreover have "ucast (ucast x :: 64 word) = x"
    by (rule bit_word_eqI) (auto simp: bit_simps dest: bit_imp_le_length)
  ultimately show "x = 0" by (metis ucast_0)
next
  assume "x = 0" then show "(ucast x :: 64 word) = 0" by simp
qed

lemma ucast_xor_mask32:
  "(((ucast (a :: 32 word) :: 64 word) XOR ucast (b :: 32 word)) AND 0xFFFFFFFF = 0) = (a = b)"
proof -
  have m: "(0xFFFFFFFF :: 64 word) = mask 32" by (simp add: mask_eq_exp_minus_1)
  have "((ucast a :: 64 word) XOR ucast b) AND mask 32 = ucast (a XOR b)"
    by (rule bit_word_eqI) (auto simp: bit_simps dest: bit_imp_le_length)
  then show ?thesis by (simp add: m word_xor_eq_0 ucast_32_64_eq_0)
qed

lemma compare_registers_core_filter:
  "compare_registers_core rvs load reg1 reg2 =
     map name (filter (\<lambda>rv. nbytes rv \<noteq> 0 \<and> comparison_mask rv \<noteq> 0 \<and>
        (load (offset rv) reg1 XOR load (offset rv) reg2) AND comparison_mask rv \<noteq> 0) rvs)"
  by (induction rvs) (auto simp: Let_def)

lemma mask_for_nbytes_4: "mask_for_nbytes 4 = 0xFFFFFFFF"
  by (simp add: mask_for_nbytes_def)

lemma mask_for_nbytes_8: "mask_for_nbytes 8 = - 1"
  by (simp add: mask_for_nbytes_def)

lemma deterministic_eflags_mask_value: "deterministic_eflags_mask = 0xFFDEFDFD"
  by (simp add: deterministic_eflags_mask_def X86_RESERVED_FLAG_def X86_IF_FLAG_def
      X86_RF_FLAG_def X86_ID_FLAG_def)

lemmas regtable_simps = x86_registers_def x64_registers_def RV_def RV_WITH_MASK_def
  mask_for_nbytes_4 mask_for_nbytes_8 deterministic_eflags_mask_value REGCMP_def

lemma compare_registers_core_names:
  "n \<in> set (compare_registers_core rvs load reg1 reg2) \<Longrightarrow>
     \<exists>rv \<in> set rvs. name rv = n \<and> comparison_mask rv \<noteq> 0"
  by (induction rvs) (auto simp: Let_def split: if_splits)

lemma x86_orig_mask: "\<forall>rv \<in> set x86_registers. name rv = ''orig_eax'' \<longrightarrow> comparison_mask rv = 0"
  by (simp add: x86_registers_def RV_def RV_WITH_MASK_def)

lemma x86_core_orig: "''orig_eax'' \<notin> set (compare_registers_core x86_registers x86_load r1 r2)"
  using compare_registers_core_names [of "''orig_eax''" x86_registers x86_load r1 r2] x86_orig_mask
  by blast

lemma x64_orig_mask: "\<forall>rv \<in> set x64_registers. name rv = ''orig_rax'' \<longrightarrow> comparison_mask rv = 0"
  by (simp add: x64_registers_def RV_def RV_WITH_MASK_def)

lemma x64_core_orig: "''orig_rax'' \<notin> set (compare_registers_core x64_registers x64_load r1 r2)"
  using compare_registers_core_names [of "''orig_rax''" x64_registers x64_load r1 r2] x64_orig_mask
  by blast

lemma compare_registers_core_distinct:
  "distinct (map name rvs) \<Longrightarrow> rv \<in> set rvs \<Longrightarrow>
   (name rv \<in> set (compare_registers_core rvs load reg1 reg2)) =
     (nbytes rv \<noteq> 0 \<and> comparison_mask rv \<noteq> 0 \<and>
      (load (offset rv) reg1 XOR load (offset rv) reg2) AND comparison_mask rv \<noteq> 0)"
proof (induction rvs)
  case Nil
  then show ?case by simp
next
  case (Cons a rvs)
  show ?case
  proof (cases "rv = a")
    case True
    have "name a \<notin> set (compare_registers_core rvs load reg1 reg2)"
    proof
      assume "name a \<in> set (compare_registers_core rvs load reg1 reg2)"
      from compare_registers_core_names [OF this]
      obtain e where "e \<in> set rvs" and "name e = name a" by auto
      then have "name a \<in> set (map name rvs)"
        unfolding set_map by (metis imageI)
      with Cons.prems(1) show False by simp
    qed
    with True show ?thesis by (simp add: Let_def)
  next
    case False
    with Cons.prems have in_tl: "rv \<in> set rvs" and d: "distinct (map name rvs)" by auto
    from Cons.prems(1) have "name a \<notin> name ` set rvs" by simp
    with in_tl have "name rv \<noteq> name a" by (metis imageI)
    with Cons.IH [OF d in_tl] show ?thesis by (simp add: Let_def)
  qed
qed

lemma x86_names_distinct: "distinct (map name x86_registers)"
  by (simp add: x86_registers_def RV_def RV_WITH_MASK_def)

lemma x64_names_distinct: "distinct (map name x64_registers)"
  by (simp add: x64_registers_def RV_def RV_WITH_MASK_def)

lemma compare_registers_core_refl: "compare_registers_core rvs load r r = []"
  by (induction rvs) (simp_all add: Let_def)

lemma compare_registers_core_cong:
  "(\<forall>rv \<in> set rvs. comparison_mask rv \<noteq> 0 \<longrightarrow> load (offset rv) r2 = load (offset rv) r2') \<Longrightarrow>
   compare_registers_core rvs load r1 r2 = compare_registers_core rvs load r1 r2'"
  by (induction rvs) (simp_all add: Let_def)

lemma REGCMP_mem: "(n \<in> set (REGCMP nm v1 v2)) = (n = nm \<and> v1 \<noteq> v2)"
  by (auto simp: REGCMP_def)

lemma set_if_nil: "(n \<in> set (if c then xs else [])) = (c \<and> n \<in> set xs)"
  by simp

lemma x86_segments_ignored:
  "compare_registers_arch_x86 r (r\<lparr>xcs := a, xss := b, xds := c, xes := d\<rparr>) = []"
proof -
  have "compare_registers_core x86_registers x86_load r (r\<lparr>xcs := a, xss := b, xds := c, xes := d\<rparr>)
        = compare_registers_core x86_registers x86_load r r"
    by (rule compare_registers_core_cong) (simp add: x86_registers_def RV_def RV_WITH_MASK_def)
  then show ?thesis
    by (simp add: compare_registers_arch_x86_def compare_registers_core_refl REGCMP_def)
qed

lemma x64_segments_ignored:
  "compare_registers_arch_x64 s (s\<lparr>cs := a, ss := b, ds := c, es := d\<rparr>) = []"
proof -
  have "compare_registers_core x64_registers x64_load s (s\<lparr>cs := a, ss := b, ds := c, es := d\<rparr>)
        = compare_registers_core x64_registers x64_load s s"
    by (rule compare_registers_core_cong) (simp add: x64_registers_def RV_def RV_WITH_MASK_def)
  then show ?thesis
    by (simp add: compare_registers_arch_x64_def compare_registers_core_refl REGCMP_def)
qed

lemma x64_upper_names:
  "\<forall>rv \<in> set x64_registers. name rv \<notin> {''cs_upper'', ''ds_upper'', ''es_upper'', ''fs_upper'',
      ''gs_upper'', ''ss_upper'', ''eflags_upper''}"
  by (simp add: x64_registers_def RV_def RV_WITH_MASK_def)

lemma x64_core_upper:
  "n \<in> {''cs_upper'', ''ds_upper'', ''es_upper'', ''fs_upper'', ''gs_upper'', ''ss_upper'',
      ''eflags_upper''} \<Longrightarrow> n \<notin> set (compare_registers_core x64_registers x64_load s1 s2)"
  using compare_registers_core_names [of n x64_registers x64_load s1 s2] x64_upper_names
  by blast

lemma x86_core_xfs:
  "(''xfs'' \<in> set (compare_registers_core x86_registers x86_load r1 r2)) = (xfs r1 \<noteq> xfs r2)"
  using compare_registers_core_distinct [OF x86_names_distinct, of "RV ''xfs'' F_xfs 4" x86_load r1 r2]
  by (simp add: x86_registers_def RV_def mask_for_nbytes_4 ucast_xor_mask32)

lemma x86_core_xgs:
  "(''xgs'' \<in> set (compare_registers_core x86_registers x86_load r1 r2)) = (xgs r1 \<noteq> xgs r2)"
  using compare_registers_core_distinct [OF x86_names_distinct, of "RV ''xgs'' F_xgs 4" x86_load r1 r2]
  by (simp add: x86_registers_def RV_def mask_for_nbytes_4 ucast_xor_mask32)

lemma x64_core_fs:
  "(''fs'' \<in> set (compare_registers_core x64_registers x64_load s1 s2)) = (fs s1 \<noteq> fs s2)"
  using compare_registers_core_distinct [OF x64_names_distinct, of "RV ''fs'' G_fs 4" x64_load s1 s2]
  by (simp add: x64_registers_def RV_def mask_for_nbytes_4 ucast_xor_mask32)

lemma x64_core_gs:
  "(''gs'' \<in> set (compare_registers_core x64_registers x64_load s1 s2)) = (gs s1 \<noteq> gs s2)"
  using compare_registers_core_distinct [OF x64_names_distinct, of "RV ''gs'' G_gs 4" x64_load s1 s2]
  by (simp add: x64_registers_def RV_def mask_for_nbytes_4 ucast_xor_mask32)

text \<open>
  Claim C1, as stated, fails: a mismatch on \<open>orig_eax\<close> is reported although one of the
  two values is negative. Here the first file holds \<open>-1\<close> and the second \<open>5\<close>.
\<close>

theorem orig_eax_one_negative_counterexample:
  "compare_register_files (X86Regs (x86_zero\<lparr>orig_eax := - 1\<rparr>))
       (X86Regs (x86_zero\<lparr>orig_eax := 5\<rparr>)) EXPECT_MISMATCHES = Inr (False, [''orig_eax'']) \<and>
   sint (orig_eax (x86_zero\<lparr>orig_eax := - 1\<rparr>)) < 0"
  by (simp add: compare_register_files_def compare_registers_arch_x86_def regtable_simps
      x86_zero_def)

text \<open>
  Claim C1, amended: the guard is a disjunction. A mismatch on \<open>orig_eax\<close> (32-bit
  files) or \<open>orig_rax\<close> (64-bit files) is reported exactly when at least one of the two
  values is non-negative and the two values differ; the register is left out of the
  comparison only when both values are negative.
\<close>

theorem orig_ax_compared_unless_both_negative:
  "(\<exists>ms. compare_register_files_internal (X86Regs r1) (X86Regs r2) = Inr ms \<and>
      ((''orig_eax'' \<in> set ms) =
       ((0 \<le> sint (orig_eax r1) \<or> 0 \<le> sint (orig_eax r2)) \<and> orig_eax r1 \<noteq> orig_eax r2))) \<and>
   (\<exists>ms. compare_register_files_internal (X64Regs s1) (X64Regs s2) = Inr ms \<and>
      ((''orig_rax'' \<in> set ms) =
       ((0 \<le> sint (orig_rax s1) \<or> 0 \<le> sint (orig_rax s2)) \<and> orig_rax s1 \<noteq> orig_rax s2)))"
  by (simp add: compare_registers_arch_x86_def compare_registers_arch_x64_def
      x86_core_orig x64_core_orig REGCMP_def)

theorem orig_ax_compared_unless_both_negative_witness:
  "(\<exists>ms. compare_register_files_internal (X86Regs (x86_zero\<lparr>orig_eax := - 1\<rparr>))
         (X86Regs (x86_zero\<lparr>orig_eax := - 512\<rparr>)) = Inr ms \<and> ''orig_eax'' \<notin> set ms) \<and>
   (\<exists>ms. compare_register_files_internal (X64Regs (x64_zero\<lparr>orig_rax := - 1\<rparr>))
         (X64Regs (x64_zero\<lparr>orig_rax := 7\<rparr>)) = Inr ms \<and> ''orig_rax'' \<in> set ms)"
  using orig_ax_compared_unless_both_negative [of "x86_zero\<lparr>orig_eax := - 1\<rparr>"
      "x86_zero\<lparr>orig_eax := - 512\<rparr>" "x64_zero\<lparr>orig_rax := - 1\<rparr>" "x64_zero\<lparr>orig_rax := 7\<rparr>"]
  by (simp add: x86_zero_def x64_zero_def)

text \<open>
  Claim C3, as stated, fails in both directions: two 32-bit files that differ only in bit
  16 of \<open>xfs\<close> do not compare equal, and two files that differ in bit 0 of \<open>xcs\<close>
  compare equal.
\<close>

theorem segment_mask_counterexample:
  "compare_register_files (X86Regs x86_zero) (X86Regs (x86_zero\<lparr>xfs := 0x10000\<rparr>))
       EXPECT_MISMATCHES = Inr (False, [''xfs'']) \<and>
   compare_register_files (X86Regs x86_zero) (X86Regs (x86_zero\<lparr>xcs := 1\<rparr>))
       EXPECT_MISMATCHES = Inr (True, [])"
  by (simp add: compare_register_files_def compare_registers_arch_x86_def regtable_simps
      x86_zero_def)

text \<open>
  Claim C3, amended: no segment register is masked to 16 bits. The entries for cs, ss, ds
  and es carry comparison mask 0, so files that differ only in these fields compare equal
  under every mismatch behaviour; fs and gs are compared on all 32 bits of their field; and
  on 64-bit files the \<open>_upper\<close> halves of the segment registers are compared exactly.
\<close>

theorem segment_registers_comparison:
  "compare_register_files (X86Regs r) (X86Regs (r\<lparr>xcs := a, xss := b, xds := c, xes := d\<rparr>)) mb
     = Inr (True, []) \<and>
   (''xfs'' \<in> set (compare_registers_arch_x86 r1 r2)) = (xfs r1 \<noteq> xfs r2) \<and>
   (''xgs'' \<in> set (compare_registers_arch_x86 r1 r2)) = (xgs r1 \<noteq> xgs r2) \<and>
   compare_register_files (X64Regs s) (X64Regs (s\<lparr>cs := a, ss := b, ds := c, es := d\<rparr>)) mb
     = Inr (True, []) \<and>
   (''fs'' \<in> set (compare_registers_arch_x64 s1 s2)) = (fs s1 \<noteq> fs s2) \<and>
   (''gs'' \<in> set (compare_registers_arch_x64 s1 s2)) = (gs s1 \<noteq> gs s2) \<and>
   (''cs_upper'' \<in> set (compare_registers_arch_x64 s1 s2)) = (cs_upper s1 \<noteq> cs_upper s2) \<and>
   (''ss_upper'' \<in> set (compare_registers_arch_x64 s1 s2)) = (ss_upper s1 \<noteq> ss_upper s2) \<and>
   (''ds_upper'' \<in> set (compare_registers_arch_x64 s1 s2)) = (ds_upper s1 \<noteq> ds_upper s2) \<and>
   (''es_upper'' \<in> set (compare_registers_arch_x64 s1 s2)) = (es_upper s1 \<noteq> es_upper s2) \<and>
   (''fs_upper'' \<in> set (compare_registers_arch_x64 s1 s2)) = (fs_upper s1 \<noteq> fs_upper s2) \<and>
   (''gs_upper'' \<in> set (compare_registers_arch_x64 s1 s2)) = (gs_upper s1 \<noteq> gs_upper s2)"
proof -
  have p1: "compare_register_files (X86Regs r) (X86Regs (r\<lparr>xcs := a, xss := b, xds := c, xes := d\<rparr>)) mb
     = Inr (True, [])"
    by (simp add: compare_register_files_def x86_segments_ignored)
  have p2: "compare_register_files (X64Regs s) (X64Regs (s\<lparr>cs := a, ss := b, ds := c, es := d\<rparr>)) mb
     = Inr (True, [])"
    by (simp add: compare_register_files_def x64_segments_ignored)
  have p3: "(''xfs'' \<in> set (compare_registers_arch_x86 r1 r2)) = (xfs r1 \<noteq> xfs r2)"
    by (simp add: compare_registers_arch_x86_def x86_core_xfs REGCMP_mem)
  have p4: "(''xgs'' \<in> set (compare_registers_arch_x86 r1 r2)) = (xgs r1 \<noteq> xgs r2)"
    by (simp add: compare_registers_arch_x86_def x86_core_xgs REGCMP_mem)
  have p5: "(''fs'' \<in> set (compare_registers_arch_x64 s1 s2)) = (fs s1 \<noteq> fs s2)"
    by (simp add: compare_registers_arch_x64_def x64_core_fs REGCMP_mem)
  have p6: "(''gs'' \<in> set (compare_registers_arch_x64 s1 s2)) = (gs s1 \<noteq> gs s2)"
    by (simp add: compare_registers_arch_x64_def x64_core_gs REGCMP_mem)
  have p7: "(''cs_upper'' \<in> set (compare_registers_arch_x64 s1 s2)) = (cs_upper s1 \<noteq> cs_upper s2)"
    by (simp add: compare_registers_arch_x64_def x64_core_upper REGCMP_mem)
  have p8: "(''ss_upper'' \<in> set (compare_registers_arch_x64 s1 s2)) = (ss_upper s1 \<noteq> ss_upper s2)"
    by (simp add: compare_registers_arch_x64_def x64_core_upper REGCMP_mem)
  have p9: "(''ds_upper'' \<in> set (compare_registers_arch_x64 s1 s2)) = (ds_upper s1 \<noteq> ds_upper s2)"
    by (simp add: compare_registers_arch_x64_def x64_core_upper REGCMP_mem)
  have p10: "(''es_upper'' \<in> set (compare_registers_arch_x64 s1 s2)) = (es_upper s1 \<noteq> es_upper s2)"
    by (simp add: compare_registers_arch_x64_def x64_core_upper REGCMP_mem)
  have p11: "(''fs_upper'' \<in> set (compare_registers_arch_x64 s1 s2)) = (fs_upper s1 \<noteq> fs_upper s2)"
    by (simp add: compare_registers_arch_x64_def x64_core_upper REGCMP_mem)
  have p12: "(''gs_upper'' \<in> set (compare_registers_arch_x64 s1 s2)) = (gs_upper s1 \<noteq> gs_upper s2)"
    by (simp add: compare_registers_arch_x64_def x64_core_upper REGCMP_mem)
  from p1 p2 p3 p4 p5 p6 p7 p8 p9 p10 p11 p12 show ?thesis by blast
qed

theorem segment_registers_comparison_witness:
  "compare_register_files (X86Regs x86_zero)
      (X86Regs (x86_zero\<lparr>xcs := 1, xss := 2, xds := 3, xes := 4\<rparr>)) BAIL_ON_MISMATCH
     = Inr (True, []) \<and>
   ''xfs'' \<in> set (compare_registers_arch_x86 x86_zero (x86_zero\<lparr>xfs := 0x10000\<rparr>)) \<and>
   ''cs_upper'' \<in> set (compare_registers_arch_x64 x64_zero (x64_zero\<lparr>cs_upper := 1\<rparr>))"
  using segment_registers_comparison [where r = x86_zero and a = 1 and b = 2 and c = 3 and d = 4
      and mb = BAIL_ON_MISMATCH and ?r1.0 = x86_zero and ?r2.0 = "x86_zero\<lparr>xfs := 0x10000\<rparr>"
      and ?s1.0 = x64_zero and ?s2.0 = "x64_zero\<lparr>cs_upper := 1\<rparr>"]
  by (simp add: x86_zero_def x64_zero_def)

subsection \<open>The commit protocol of the syscall buffer\<close>

lemmas store_defs = emit_def store_locked_def store_desched_signal_may_be_relevant_def
  store_abort_commit_def store_num_rec_bytes_def store_rec_syscallno_def store_rec_desched_def
  store_rec_size_def store_rec_ret_def

lemma new_actions_append [simp]: "trace s' = trace s @ xs \<Longrightarrow> new_actions s s' = xs"
  by (simp add: new_actions_def)

lemma commit_finish_returns:
  "desched (records s k) \<longrightarrow> ioctl_disable_ret env = 0 \<Longrightarrow>
   \<exists>s'. commit_finish env k bp r s = (Returns r, s') \<and>
        trace s' = trace s @ (if desched (records s k) then [Ioctl_DISABLE] else []) @
                   [Store_locked 0] @ (if bp then [Breakpoint_function] else []) \<and>
        records s' = records s \<and> buffer s' = buffer s \<and>
        hdr s' = (hdr s)\<lparr>locked := 0\<rparr>"
  by (simp add: commit_finish_def disarm_desched_event_def store_defs Let_def)

text \<open>
  Claim C4: a commit that is not aborted and runs to its \<open>return\<close> stores the record's
  size, then its return value, and only then advances \<open>num_rec_bytes\<close>; no store to the
  record follows. \<open>num_rec_bytes\<close> grows by exactly \<open>stored_record_size\<close> of the size
  just stored in the record. The hypotheses are the conditions under which the function
  reaches its \<open>return\<close>: the two assertions hold (or are compiled out), the record was
  started for the same system call, and disarming the desched counter succeeds.
\<close>

theorem commit_not_aborted:
  assumes no_abort: "abort_commit (hdr s) = 0"
    and asserts: "NDEBUG env \<or> (buffer_last env s \<le> record_end \<and> locked (hdr s) \<noteq> 0)"
    and same_no: "syscallno (records s (num_rec_bytes (hdr s))) = no"
    and disarm_ok: "desched (records s (num_rec_bytes (hdr s))) \<longrightarrow> ioctl_disable_ret env = 0"
  shows "\<exists>s'. commit_raw_syscall env no record_end r s = (Returns r, s') \<and>
     new_actions s s' =
       [Store_rec_size (record_end - buffer_last env s),
        Store_desched_signal_may_be_relevant 0,
        Store_rec_ret r,
        Store_num_rec_bytes (num_rec_bytes (hdr s) +
           stored_record_size env (record_end - buffer_last env s))] @
       (if desched (records s (num_rec_bytes (hdr s))) then [Ioctl_DISABLE] else []) @
       [Store_locked 0, Breakpoint_function] \<and>
     rec_size (records s' (num_rec_bytes (hdr s))) = record_end - buffer_last env s \<and>
     ret (records s' (num_rec_bytes (hdr s))) = r \<and>
     num_rec_bytes (hdr s') = num_rec_bytes (hdr s) +
        stored_record_size env (rec_size (records s' (num_rec_bytes (hdr s))))"
proof -
  define k where "k = num_rec_bytes (hdr s)"
  define sz where "sz = record_end - buffer_last env s"
  define s4 where "s4 = store_num_rec_bytes (k + stored_record_size env sz)
      (store_rec_ret k r (store_desched_signal_may_be_relevant 0 (store_rec_size k sz s)))"
  have d4: "desched (records s4 k) = desched (records s k)"
    by (simp add: s4_def store_defs)
  have "desched (records s4 k) \<longrightarrow> ioctl_disable_ret env = 0"
    using disarm_ok d4 by (simp add: k_def)
  from commit_finish_returns [OF this, of True r]
  obtain s' where fin: "commit_finish env k True r s4 = (Returns r, s')"
    and tr: "trace s' = trace s4 @ (if desched (records s4 k) then [Ioctl_DISABLE] else []) @
                   [Store_locked 0] @ (if True then [Breakpoint_function] else [])"
    and recs: "records s' = records s4" and h: "hdr s' = (hdr s4)\<lparr>locked := 0\<rparr>"
    by blast
  have run: "commit_raw_syscall env no record_end r s = commit_finish env k True r s4"
    using no_abort asserts same_no
    by (auto simp: commit_raw_syscall_def Let_def k_def sz_def s4_def store_defs)
  have tr4: "trace s4 = trace s @ [Store_rec_size sz, Store_desched_signal_may_be_relevant 0,
      Store_rec_ret r, Store_num_rec_bytes (k + stored_record_size env sz)]"
    by (simp add: s4_def store_defs)
  have "trace s' = trace s @ ([Store_rec_size sz, Store_desched_signal_may_be_relevant 0,
      Store_rec_ret r, Store_num_rec_bytes (k + stored_record_size env sz)] @
      (if desched (records s k) then [Ioctl_DISABLE] else []) @
       [Store_locked 0, Breakpoint_function])"
    using tr by (simp add: tr4 d4)
  then have na: "new_actions s s' = [Store_rec_size sz, Store_desched_signal_may_be_relevant 0,
      Store_rec_ret r, Store_num_rec_bytes (k + stored_record_size env sz)] @
      (if desched (records s k) then [Ioctl_DISABLE] else []) @
       [Store_locked 0, Breakpoint_function]"
    by (rule new_actions_append)
  have r1: "rec_size (records s' k) = sz" by (simp add: recs s4_def store_defs)
  have r2: "ret (records s' k) = r" by (simp add: recs s4_def store_defs)
  have r3: "num_rec_bytes (hdr s') = k + stored_record_size env sz"
    by (simp add: h s4_def store_defs)
  show ?thesis
    using run fin na r1 r2 r3 unfolding k_def [symmetric] sz_def [symmetric] by simp
qed

text \<open>
  Claim C10: when \<open>abort_commit\<close> is set on entry, the commit leaves \<open>num_rec_bytes\<close>
  where it was (no store to it occurs at all), clears \<open>abort_commit\<close>, zeroes the record's
  return value, and clears \<open>locked\<close> as its last store before returning.
\<close>

theorem commit_aborted:
  assumes abort: "abort_commit (hdr s) \<noteq> 0"
    and asserts: "NDEBUG env \<or> (buffer_last env s \<le> record_end \<and> locked (hdr s) \<noteq> 0)"
    and same_no: "syscallno (records s (num_rec_bytes (hdr s))) = no"
    and disarm_ok: "desched (records s (num_rec_bytes (hdr s))) \<longrightarrow> ioctl_disable_ret env = 0"
  shows "\<exists>s'. commit_raw_syscall env no record_end r s = (Returns r, s') \<and>
     new_actions s s' =
       [Store_rec_size (record_end - buffer_last env s),
        Store_desched_signal_may_be_relevant 0,
        Store_abort_commit 0,
        Store_rec_ret 0] @
       (if desched (records s (num_rec_bytes (hdr s))) then [Ioctl_DISABLE] else []) @
       [Store_locked 0] \<and>
     num_rec_bytes (hdr s') = num_rec_bytes (hdr s) \<and>
     abort_commit (hdr s') = 0 \<and>
     ret (records s' (num_rec_bytes (hdr s))) = 0 \<and>
     locked (hdr s') = 0"
proof -
  define k where "k = num_rec_bytes (hdr s)"
  define sz where "sz = record_end - buffer_last env s"
  define s4 where "s4 = store_rec_ret k 0 (store_abort_commit 0
      (store_desched_signal_may_be_relevant 0 (store_rec_size k sz s)))"
  have d4: "desched (records s4 k) = desched (records s k)"
    by (simp add: s4_def store_defs)
  have "desched (records s4 k) \<longrightarrow> ioctl_disable_ret env = 0"
    using disarm_ok d4 by (simp add: k_def)
  from commit_finish_returns [OF this, of False r]
  obtain s' where fin: "commit_finish env k False r s4 = (Returns r, s')"
    and tr: "trace s' = trace s4 @ (if desched (records s4 k) then [Ioctl_DISABLE] else []) @
                   [Store_locked 0] @ (if False then [Breakpoint_function] else [])"
    and recs: "records s' = records s4" and h: "hdr s' = (hdr s4)\<lparr>locked := 0\<rparr>"
    by blast
  have run: "commit_raw_syscall env no record_end r s = commit_finish env k False r s4"
    using abort asserts same_no
    by (auto simp: commit_raw_syscall_def Let_def k_def sz_def s4_def store_defs)
  have tr4: "trace s4 = trace s @ [Store_rec_size sz, Store_desched_signal_may_be_relevant 0,
      Store_abort_commit 0, Store_rec_ret 0]"
    by (simp add: s4_def store_defs)
  have "trace s' = trace s @ ([Store_rec_size sz, Store_desched_signal_may_be_relevant 0,
      Store_abort_commit 0, Store_rec_ret 0] @
      (if desched (records s k) then [Ioctl_DISABLE] else []) @ [Store_locked 0])"
    using tr by (simp add: tr4 d4)
  then have na: "new_actions s s' = [Store_rec_size sz, Store_desched_signal_may_be_relevant 0,
      Store_abort_commit 0, Store_rec_ret 0] @
      (if desched (records s k) then [Ioctl_DISABLE] else []) @ [Store_locked 0]"
    by (rule new_actions_append)
  have r1: "num_rec_bytes (hdr s') = k" by (simp add: h s4_def store_defs k_def)
  have r2: "abort_commit (hdr s') = 0" by (simp add: h s4_def store_defs)
  have r3: "ret (records s' k) = 0" by (simp add: recs s4_def store_defs)
  have r4: "locked (hdr s') = 0" by (simp add: h)
  show ?thesis
    using run fin na r1 r2 r3 r4 unfolding k_def [symmetric] sz_def [symmetric] by simp
qed

lemma start_commit_may_block:
  assumes "start_commit_buffered_syscall env no record_end MAY_BLOCK s = (Returns ok, s2)"
    and "ok \<noteq> 0"
  shows "trace s2 = trace s @ [Store_rec_syscallno no, Store_rec_desched True,
            Store_rec_size (record_end - buffer_last env s),
            Store_desched_signal_may_be_relevant 1, Ioctl_ENABLE] \<and>
         num_rec_bytes (hdr s2) = num_rec_bytes (hdr s) \<and>
         desched (records s2 (num_rec_bytes (hdr s))) \<and>
         syscallno (records s2 (num_rec_bytes (hdr s))) = no"
  using assms
  by (auto simp: start_commit_buffered_syscall_def Let_def arm_desched_event_def fatal_def
      store_defs split: if_splits)

lemma untraced_syscall_base_trace:
  assumes "untraced_syscall_base env no s = (r, s3)"
  shows "trace s3 = trace s @ [Untraced_syscall no] \<and>
         num_rec_bytes (hdr s3) = num_rec_bytes (hdr s) \<and> records s3 = records s"
  using assms by (auto simp: untraced_syscall_base_def Let_def store_defs split: if_splits)

lemma copy_output_buffer_trace:
  assumes "copy_output_buffer r pend buf buf2 s = (p, s4)"
  shows "filter desched_step (new_actions s s4) = [] \<and> (\<exists>xs. trace s4 = trace s @ xs) \<and>
         hdr s4 = hdr s \<and> records s4 = records s"
  using assms by (auto simp: copy_output_buffer_def new_actions_def store_defs split: if_splits)

lemma commit_desched_steps:
  assumes "commit_raw_syscall env no record_end r s = (Returns v, s')"
    and "desched (records s (num_rec_bytes (hdr s)))"
  shows "\<exists>xs. trace s' = trace s @ xs \<and>
     filter desched_step xs = [Store_desched_signal_may_be_relevant 0, Ioctl_DISABLE]"
  using assms
  by (auto simp: commit_raw_syscall_def commit_finish_def disarm_desched_event_def Let_def
      fatal_def assert_failed_def store_defs split: if_splits)

lemma prep_syscall_for_fd_trace:
  assumes "prep_syscall_for_fd env fd s = (p, s1)"
  shows "\<exists>xs. trace s1 = trace s @ xs \<and> set xs \<subseteq> {Store_locked 1}"
  using assms
  by (auto simp: prep_syscall_for_fd_def prep_syscall_def Let_def store_defs split: if_splits)

lemma start_commit_refused:
  assumes "start_commit_buffered_syscall env no record_end blk s = (Returns 0, s2)"
  shows "\<exists>xs. trace s2 = trace s @ xs \<and> set xs \<subseteq> {Store_locked 0}"
  using assms
  by (auto simp: start_commit_buffered_syscall_def Let_def arm_desched_event_def fatal_def
      store_defs split: if_splits)

lemma copies_parameters_trace:
  assumes "copies_parameters s s'"
  shows "\<exists>xs. trace s' = trace s @ xs \<and> filter desched_step xs = []"
proof -
  from assms have tk: "take (length (trace s)) (trace s') = trace s"
    and f: "filter desched_step (drop (length (trace s)) (trace s')) = []"
    by (simp_all add: copies_parameters_def new_actions_def)
  have "trace s' = trace s @ drop (length (trace s)) (trace s')"
    using append_take_drop_id [of "length (trace s)" "trace s'"] tk by simp
  with f show ?thesis by blast
qed

lemma copies_parameters_refl: "copies_parameters s s"
  by (simp add: copies_parameters_def new_actions_def)

lemma copy_output_buffer_copies:
  assumes "copy_output_buffer r pend buf buf2 s = (p, s4)"
  shows "copies_parameters s s4"
  using assms
  by (auto simp: copy_output_buffer_def copies_parameters_def new_actions_def store_defs
      split: if_splits)

text \<open>
  \<open>sys_read\<close> is a wrapper of a may-block system call: when it returns after the
  untraced system call, the steps of the desched protocol occur in the order set the
  flag, arm the counter, untraced system call, clear the flag, disarm the counter.
\<close>

lemma sys_read_protocol_order:
  assumes run: "sys_read env call_no fd buf count s = (Returns v, s')"
    and buffered: "Untraced_syscall SYS_read \<in> set (new_actions s s')"
  shows "filter desched_step (new_actions s s') =
     [Store_desched_signal_may_be_relevant 1, Ioctl_ENABLE, Untraced_syscall SYS_read,
      Store_desched_signal_may_be_relevant 0, Ioctl_DISABLE]"
proof -
  obtain pend0 s1 where prep: "prep_syscall_for_fd env fd s = (pend0, s1)"
    by (cases "prep_syscall_for_fd env fd s")
  from prep_syscall_for_fd_trace [OF prep]
  obtain xs1 where t1: "trace s1 = trace s @ xs1" and x1: "set xs1 \<subseteq> {Store_locked 1}"
    by blast
  define buf2 where "buf2 = (if buf \<noteq> 0 \<and> count > 0 then pend0 else 0)"
  define pend where "pend = (if buf \<noteq> 0 \<and> count > 0 then pend0 + count else pend0)"
  obtain o2 s2 where st: "start_commit_buffered_syscall env SYS_read pend MAY_BLOCK s1 = (o2, s2)"
    by (cases "start_commit_buffered_syscall env SYS_read pend MAY_BLOCK s1")
  have run2: "(case o2 of
          Returns ok \<Rightarrow>
            if ok = 0 then traced_raw_syscall env call_no s2
            else
              (let (r, s3) = untraced_syscall_base env SYS_read s2;
                   (pend', s4) = copy_output_buffer r pend buf buf2 s3
               in commit_raw_syscall env SYS_read pend' r s4)
        | Process_exits \<Rightarrow> (Process_exits, s2)
        | Process_aborts \<Rightarrow> (Process_aborts, s2)) = (Returns v, s')"
  proof (cases "\<not> NDEBUG env \<and> SYS_read \<noteq> call_no")
    case True
    with run prep have "(Process_aborts, emit Assertion_failed s1) = (Returns v, s')"
      by (simp add: sys_read_def assert_failed_def)
    then show ?thesis by simp
  next
    case False
    have body: "sys_read env call_no fd buf count s =
        (if \<not> NDEBUG env \<and> SYS_read \<noteq> call_no then assert_failed s1
         else
          (case (o2, s2) of
            (Returns ok, s2) \<Rightarrow>
              if ok = 0 then traced_raw_syscall env call_no s2
              else
                (let (r, s3) = untraced_syscall_base env SYS_read s2;
                     (pend', s4) = copy_output_buffer r pend buf buf2 s3
                 in commit_raw_syscall env SYS_read pend' r s4)
          | (Process_exits, s2) \<Rightarrow> (Process_exits, s2)
          | (Process_aborts, s2) \<Rightarrow> (Process_aborts, s2)))"
      unfolding sys_read_def prep st [symmetric] pend_def buf2_def Let_def by simp
    have "sys_read env call_no fd buf count s =
          (case (o2, s2) of
            (Returns ok, s2) \<Rightarrow>
              if ok = 0 then traced_raw_syscall env call_no s2
              else
                (let (r, s3) = untraced_syscall_base env SYS_read s2;
                     (pend', s4) = copy_output_buffer r pend buf buf2 s3
                 in commit_raw_syscall env SYS_read pend' r s4)
          | (Process_exits, s2) \<Rightarrow> (Process_exits, s2)
          | (Process_aborts, s2) \<Rightarrow> (Process_aborts, s2))"
      unfolding body by (rule if_not_P [OF False])
    with run show ?thesis by (cases o2) simp_all
  qed
  then obtain ok where o2: "o2 = Returns ok" by (cases o2) auto
  show ?thesis
  proof (cases "ok = 0")
    case True
    with st o2 have "start_commit_buffered_syscall env SYS_read pend MAY_BLOCK s1 = (Returns 0, s2)"
      by simp
    from start_commit_refused [OF this]
    obtain xs2 where t2: "trace s2 = trace s1 @ xs2" and x2: "set xs2 \<subseteq> {Store_locked 0}"
      by blast
    from run2 o2 True have "trace s' = trace s2 @ [Traced_syscall call_no]"
      by (auto simp: traced_raw_syscall_def emit_def)
    with t1 t2 have "new_actions s s' = xs1 @ xs2 @ [Traced_syscall call_no]"
      by (simp add: new_actions_def)
    with buffered x1 x2 show ?thesis by auto
  next
    case False
    from start_commit_may_block [OF st [unfolded o2] False]
    have t2: "trace s2 = trace s1 @ [Store_rec_syscallno SYS_read, Store_rec_desched True,
            Store_rec_size (pend - buffer_last env s1),
            Store_desched_signal_may_be_relevant 1, Ioctl_ENABLE]"
      and n2: "num_rec_bytes (hdr s2) = num_rec_bytes (hdr s1)"
      and d2: "desched (records s2 (num_rec_bytes (hdr s1)))"
      by auto
    obtain r s3 where un: "untraced_syscall_base env SYS_read s2 = (r, s3)"
      by (cases "untraced_syscall_base env SYS_read s2")
    from untraced_syscall_base_trace [OF un]
    have t3: "trace s3 = trace s2 @ [Untraced_syscall SYS_read]"
      and n3: "num_rec_bytes (hdr s3) = num_rec_bytes (hdr s2)"
      and r3: "records s3 = records s2" by auto
    obtain pend' s4 where cp: "copy_output_buffer r pend buf buf2 s3 = (pend', s4)"
      by (cases "copy_output_buffer r pend buf buf2 s3")
    from copy_output_buffer_trace [OF cp]
    obtain xs4 where f4: "filter desched_step (new_actions s3 s4) = []"
      and t4: "trace s4 = trace s3 @ xs4" and h4: "hdr s4 = hdr s3"
      and r4: "records s4 = records s3" by blast
    from f4 t4 have f4': "filter desched_step xs4 = []" by (simp add: new_actions_def)
    from run2 o2 False un cp
    have cm: "commit_raw_syscall env SYS_read pend' r s4 = (Returns v, s')" by simp
    have "desched (records s4 (num_rec_bytes (hdr s4)))"
      using d2 by (simp add: r4 r3 h4 n3 n2)
    from commit_desched_steps [OF cm this]
    obtain xs5 where t5: "trace s' = trace s4 @ xs5"
      and f5: "filter desched_step xs5 =
         [Store_desched_signal_may_be_relevant 0, Ioctl_DISABLE]" by blast
    have "new_actions s s' = xs1 @ [Store_rec_syscallno SYS_read, Store_rec_desched True,
            Store_rec_size (pend - buffer_last env s1),
            Store_desched_signal_may_be_relevant 1, Ioctl_ENABLE] @
            [Untraced_syscall SYS_read] @ xs4 @ xs5"
      by (simp add: new_actions_def t5 t4 t3 t2 t1)
    moreover have "filter desched_step xs1 = []"
      using x1 by (auto simp: filter_empty_conv)
    ultimately show ?thesis by (simp add: f4' f5)
  qed
qed

text \<open>
  Claim C2, amended, for every system call number. Let
  \<open>start_commit_buffered_syscall\<close> start a \<open>MAY_BLOCK\<close> record and answer that the call is
  buffered, let the wrapper make the untraced system call and let \<open>commit_raw_syscall\<close>
  return, with nothing but copies of parameters in between, as in each wrapper of a
  may-block system call. Then the steps of the desched protocol occur in the order: set
  the flag, arm the counter, untraced system call, clear the flag, disarm the counter. The
  flag is cleared before the counter is disarmed, as the comment in
  \<open>commit_raw_syscall\<close> requires.
\<close>

theorem may_block_protocol_order:
  assumes start: "start_commit_buffered_syscall env no record_end MAY_BLOCK s = (Returns ok, s1)"
    and buffered: "ok \<noteq> 0"
    and inputs: "copies_parameters s1 s2"
    and call: "untraced_syscall_base env no s2 = (r, s3)"
    and outputs: "copies_parameters s3 s4"
    and commit: "commit_raw_syscall env no record_end' r s4 = (Returns v, s')"
  shows "filter desched_step (new_actions s s') =
     [Store_desched_signal_may_be_relevant 1, Ioctl_ENABLE, Untraced_syscall no,
      Store_desched_signal_may_be_relevant 0, Ioctl_DISABLE]"
proof -
  from start_commit_may_block [OF start buffered]
  have t1: "trace s1 = trace s @ [Store_rec_syscallno no, Store_rec_desched True,
            Store_rec_size (record_end - buffer_last env s),
            Store_desched_signal_may_be_relevant 1, Ioctl_ENABLE]"
    and n1: "num_rec_bytes (hdr s1) = num_rec_bytes (hdr s)"
    and d1: "desched (records s1 (num_rec_bytes (hdr s)))"
    by auto
  from copies_parameters_trace [OF inputs]
  obtain xs2 where t2: "trace s2 = trace s1 @ xs2" and f2: "filter desched_step xs2 = []"
    by blast
  from inputs have h2: "hdr s2 = hdr s1" and r2: "records s2 = records s1"
    by (simp_all add: copies_parameters_def)
  from untraced_syscall_base_trace [OF call]
  have t3: "trace s3 = trace s2 @ [Untraced_syscall no]"
    and n3: "num_rec_bytes (hdr s3) = num_rec_bytes (hdr s2)"
    and r3: "records s3 = records s2" by auto
  from copies_parameters_trace [OF outputs]
  obtain xs4 where t4: "trace s4 = trace s3 @ xs4" and f4: "filter desched_step xs4 = []"
    by blast
  from outputs have h4: "hdr s4 = hdr s3" and r4: "records s4 = records s3"
    by (simp_all add: copies_parameters_def)
  have "desched (records s4 (num_rec_bytes (hdr s4)))"
    using d1 by (simp add: r4 r3 r2 h4 n3 h2 n1)
  from commit_desched_steps [OF commit this]
  obtain xs5 where t5: "trace s' = trace s4 @ xs5"
    and f5: "filter desched_step xs5 =
       [Store_desched_signal_may_be_relevant 0, Ioctl_DISABLE]" by blast
  have "new_actions s s' = [Store_rec_syscallno no, Store_rec_desched True,
            Store_rec_size (record_end - buffer_last env s),
            Store_desched_signal_may_be_relevant 1, Ioctl_ENABLE] @ xs2 @
            [Untraced_syscall no] @ xs4 @ xs5"
    by (simp add: new_actions_def t5 t4 t3 t2 t1)
  then show ?thesis by (simp add: f2 f4 f5)
qed

theorem may_block_protocol_order_witness:
  "fst (start_commit_buffered_syscall env0 3 65668 MAY_BLOCK state_locked) = Returns 1 \<and>
   fst (commit_raw_syscall env0 3 65578 10
          (snd (copy_output_buffer 10 65668 1000 65568
             (snd (untraced_syscall_base env0 3
                (snd (start_commit_buffered_syscall env0 3 65668 MAY_BLOCK state_locked))))))) =
     Returns 10 \<and>
   filter desched_step
     (new_actions state_locked
        (snd (commit_raw_syscall env0 3 65578 10
          (snd (copy_output_buffer 10 65668 1000 65568
             (snd (untraced_syscall_base env0 3
                (snd (start_commit_buffered_syscall env0 3 65668 MAY_BLOCK state_locked))))))))) =
     [Store_desched_signal_may_be_relevant 1, Ioctl_ENABLE, Untraced_syscall 3,
      Store_desched_signal_may_be_relevant 0, Ioctl_DISABLE]"
proof -
  let ?s1 = "snd (start_commit_buffered_syscall env0 3 65668 MAY_BLOCK state_locked)"
  let ?s3 = "snd (untraced_syscall_base env0 3 ?s1)"
  let ?s4 = "snd (copy_output_buffer 10 65668 1000 65568 ?s3)"
  let ?s5 = "snd (commit_raw_syscall env0 3 65578 10 ?s4)"
  have ok1: "fst (start_commit_buffered_syscall env0 3 65668 MAY_BLOCK state_locked) = Returns 1"
    by code_simp
  then have start: "start_commit_buffered_syscall env0 3 65668 MAY_BLOCK state_locked =
      (Returns 1, ?s1)"
    by (metis prod.collapse)
  have r10: "fst (untraced_syscall_base env0 3 ?s1) = 10"
    by (simp add: untraced_syscall_base_def Let_def env0_def)
  then have call: "untraced_syscall_base env0 3 ?s1 = (10, ?s3)"
    by (metis prod.collapse)
  have outputs: "copies_parameters ?s3 ?s4"
    by (rule copy_output_buffer_copies [of 10 65668 1000 65568 ?s3
          "fst (copy_output_buffer 10 65668 1000 65568 ?s3)"]) simp
  have ret10: "fst (commit_raw_syscall env0 3 65578 10 ?s4) = Returns 10"
    by code_simp
  then have commit: "commit_raw_syscall env0 3 65578 10 ?s4 = (Returns 10, ?s5)"
    by (metis prod.collapse)
  have one: "(1::int) \<noteq> 0" by simp
  from may_block_protocol_order [OF start one copies_parameters_refl call outputs commit]
    ok1 ret10
  show ?thesis by blast
qed

text \<open>
  Claim C2, as stated, fails: in this run of \<open>sys_read\<close> the store that clears
  \<open>desched_signal_may_be_relevant\<close> comes before the \<open>ioctl\<close> that disarms the counter.
\<close>

theorem disarm_before_clear_counterexample:
  "fst (sys_read env0 3 5 1000 100 state0) = Returns 10 \<and>
   trace (snd (sys_read env0 3 5 1000 100 state0)) =
     [Store_locked 1, Store_rec_syscallno 3, Store_rec_desched True, Store_rec_size 116,
      Store_desched_signal_may_be_relevant 1, Ioctl_ENABLE, Untraced_syscall 3,
      Local_memcpy, Store_rec_size 26, Store_desched_signal_may_be_relevant 0,
      Store_rec_ret 10, Store_num_rec_bytes 28, Ioctl_DISABLE, Store_locked 0,
      Breakpoint_function]"
  by code_simp

theorem commit_not_aborted_witness:
  "\<exists>s'. commit_raw_syscall env0 3 65578 10 state1 = (Returns 10, s') \<and>
     new_actions state1 s' =
       [Store_rec_size 26, Store_desched_signal_may_be_relevant 0, Store_rec_ret 10,
        Store_num_rec_bytes 28, Ioctl_DISABLE, Store_locked 0, Breakpoint_function] \<and>
     rec_size (records s' 0) = 26 \<and> ret (records s' 0) = 10 \<and> num_rec_bytes (hdr s') = 28"
proof -
  have h1: "abort_commit (hdr state1) = 0"
    and h2: "NDEBUG env0 \<or> (buffer_last env0 state1 \<le> 65578 \<and> locked (hdr state1) \<noteq> 0)"
    and h3: "syscallno (records state1 (num_rec_bytes (hdr state1))) = 3"
    and h4: "desched (records state1 (num_rec_bytes (hdr state1))) \<longrightarrow> ioctl_disable_ret env0 = 0"
    by (simp_all add: state1_def state0_def env0_def buffer_last_def)
  from commit_not_aborted [OF h1 h2 h3 h4, of 10]
  obtain s' where "commit_raw_syscall env0 3 65578 10 state1 = (Returns 10, s')"
    and "new_actions state1 s' =
       [Store_rec_size (65578 - buffer_last env0 state1),
        Store_desched_signal_may_be_relevant 0,
        Store_rec_ret 10,
        Store_num_rec_bytes (num_rec_bytes (hdr state1) +
           stored_record_size env0 (65578 - buffer_last env0 state1))] @
       (if desched (records state1 (num_rec_bytes (hdr state1))) then [Ioctl_DISABLE] else []) @
       [Store_locked 0, Breakpoint_function]"
    and "rec_size (records s' (num_rec_bytes (hdr state1))) = 65578 - buffer_last env0 state1"
    and "ret (records s' (num_rec_bytes (hdr state1))) = 10"
    and "num_rec_bytes (hdr s') = num_rec_bytes (hdr state1) +
        stored_record_size env0 (rec_size (records s' (num_rec_bytes (hdr state1))))"
    by blast
  then show ?thesis
    by (intro exI [of _ s']) (simp add: state1_def state0_def env0_def buffer_last_def)
qed

theorem commit_aborted_witness:
  "\<exists>s'. commit_raw_syscall env0 3 65578 10 state1_aborting = (Returns 10, s') \<and>
     new_actions state1_aborting s' =
       [Store_rec_size 26, Store_desched_signal_may_be_relevant 0, Store_abort_commit 0,
        Store_rec_ret 0, Ioctl_DISABLE, Store_locked 0] \<and>
     num_rec_bytes (hdr s') = 0 \<and> abort_commit (hdr s') = 0 \<and> ret (records s' 0) = 0 \<and>
     locked (hdr s') = 0"
proof -
  have h1: "abort_commit (hdr state1_aborting) \<noteq> 0"
    and h2: "NDEBUG env0 \<or> (buffer_last env0 state1_aborting \<le> 65578 \<and>
               locked (hdr state1_aborting) \<noteq> 0)"
    and h3: "syscallno (records state1_aborting (num_rec_bytes (hdr state1_aborting))) = 3"
    and h4: "desched (records state1_aborting (num_rec_bytes (hdr state1_aborting))) \<longrightarrow>
               ioctl_disable_ret env0 = 0"
    by (simp_all add: state1_aborting_def state1_def state0_def env0_def buffer_last_def)
  from commit_aborted [OF h1 h2 h3 h4, of 10]
  obtain s' where "commit_raw_syscall env0 3 65578 10 state1_aborting = (Returns 10, s')"
    and "new_actions state1_aborting s' =
       [Store_rec_size (65578 - buffer_last env0 state1_aborting),
        Store_desched_signal_may_be_relevant 0,
        Store_abort_commit 0,
        Store_rec_ret 0] @
       (if desched (records state1_aborting (num_rec_bytes (hdr state1_aborting)))
        then [Ioctl_DISABLE] else []) @
       [Store_locked 0]"
    and "num_rec_bytes (hdr s') = num_rec_bytes (hdr state1_aborting)"
    and "abort_commit (hdr s') = 0"
    and "ret (records s' (num_rec_bytes (hdr state1_aborting))) = 0"
    and "locked (hdr s') = 0"
    by blast
  then show ?thesis
    by (intro exI [of _ s'])
       (simp add: state1_aborting_def state1_def state0_def env0_def buffer_last_def)
qed

subsection \<open>Iterating over the memory map and choosing the scratch stack\<close>

lemma comparator_empty_key:
  "MappingComparator r \<lparr>range_start = p, range_end = p\<rparr> = (range_start r < p)"
proof -
  have "min (range_end r) p \<le> max (range_start r) p"
    by (rule order_trans [OF min.cobounded2 max.cobounded2])
  then have "\<not> max (range_start r) p < min (range_end r) p"
    by (simp only: not_less)
  then show ?thesis by (simp add: MappingComparator_def intersects_def)
qed

lemma lower_bound_at_position:
  assumes "at_position mem p i"
  shows "lower_bound mem \<lparr>range_start = p, range_end = p\<rparr> = i"
proof -
  let ?P = "\<lambda>e. range_start (fst e) < p"
  have "takeWhile ?P mem = take i mem"
    using assms by (intro takeWhile_eq_take_P_nth) (auto simp: at_position_def)
  then show ?thesis
    using assms by (simp add: lower_bound_def comparator_empty_key at_position_def)
qed

lemma to_it_at_position:
  "at_position mem p i \<Longrightarrow> to_it mem \<lparr>ptr = p, at_end = False\<rparr> = i"
  by (simp add: to_it_def lower_bound_at_position)

lemma to_it_maps_end [simp]: "to_it mem maps_end = length mem"
  by (simp add: to_it_def maps_end_def)

lemma at_position_begin: "at_position mem 0 0"
  by (simp add: at_position_def)

lemma mem_valid_nth:
  assumes "mem_valid mem" and "i < length mem"
  shows "range_start (fst (mem ! i)) < range_end (fst (mem ! i))"
    and "range_of (map_km (snd (mem ! i))) = fst (mem ! i)"
    and "\<And>j. j < i \<Longrightarrow> range_end (fst (mem ! j)) \<le> range_start (fst (mem ! i))"
proof -
  from assms show "range_start (fst (mem ! i)) < range_end (fst (mem ! i))"
    by (simp add: mem_valid_def)
  from assms have "map (\<lambda>e. range_of (map_km (snd e))) mem ! i = map fst mem ! i"
    by (simp add: mem_valid_def)
  with assms(2) show "range_of (map_km (snd (mem ! i))) = fst (mem ! i)" by simp
  fix j assume "j < i"
  from assms(1) have "sorted_wrt (\<lambda>a b. range_end a \<le> range_start b) (map fst mem)"
    by (simp add: mem_valid_def)
  from sorted_wrt_nth_less [OF this, of j i] \<open>j < i\<close> assms(2)
  show "range_end (fst (mem ! j)) \<le> range_start (fst (mem ! i))" by simp
qed

lemma range_end_map_km:
  assumes "mem_valid mem" and "i < length mem"
  shows "range_end (map_km (snd (mem ! i))) = range_end (fst (mem ! i))"
proof -
  from mem_valid_nth(2) [OF assms]
  have "range_end (range_of (map_km (snd (mem ! i)))) = range_end (fst (mem ! i))" by simp
  then show ?thesis by (simp add: range_of_def)
qed

lemma at_position_step:
  assumes v: "mem_valid mem" and i: "i < length mem"
  shows "at_position mem (range_end (fst (mem ! i))) (Suc i)"
proof -
  have below: "range_start (fst (mem ! j)) < range_end (fst (mem ! i))" if "j < Suc i" for j
  proof (cases "j = i")
    case True
    with mem_valid_nth(1) [OF v i] show ?thesis by simp
  next
    case False
    with that have ji: "j < i" by simp
    with i have "j < length mem" by simp
    from mem_valid_nth(1) [OF v this] mem_valid_nth(3) [OF v i ji] mem_valid_nth(1) [OF v i]
    show ?thesis by simp
  qed
  have above: "range_end (fst (mem ! i)) \<le> range_start (fst (mem ! Suc i))"
    if "Suc i < length mem"
    using mem_valid_nth(3) [OF v that, of i] by simp
  from i below above show ?thesis by (simp add: at_position_def)
qed

lemma same_layout_refl [simp]: "same_layout mem mem"
  by (simp add: same_layout_def)

lemma same_layout_trans: "same_layout a b \<Longrightarrow> same_layout b c \<Longrightarrow> same_layout a c"
  by (simp add: same_layout_def)

lemma same_layout_length: "same_layout mem mem' \<Longrightarrow> length mem' = length mem"
  by (metis length_map same_layout_def)

lemma same_layout_fst:
  assumes "same_layout mem mem'" and "i < length mem"
  shows "fst (mem' ! i) = fst (mem ! i)"
proof -
  from assms(1) have "map fst mem' ! i = map fst mem ! i" by (simp add: same_layout_def)
  with assms show ?thesis by (simp add: same_layout_length)
qed

lemma same_layout_valid: "same_layout mem mem' \<Longrightarrow> mem_valid mem \<Longrightarrow> mem_valid mem'"
  by (simp add: same_layout_def mem_valid_def)

lemma same_layout_at_position:
  assumes "same_layout mem mem'" and "at_position mem p i"
  shows "at_position mem' p i"
  using assms by (auto simp: at_position_def same_layout_length same_layout_fst)

lemma deref_at_position:
  assumes "at_position mem p i" and "i < length mem"
  shows "deref mem \<lparr>ptr = p, at_end = False\<rparr> = Some (snd (mem ! i))"
  using assms by (simp add: deref_def to_it_at_position)

lemma incr_at_position:
  assumes "mem_valid mem" and "at_position mem p i" and "i < length mem"
  shows "incr mem \<lparr>ptr = p, at_end = False\<rparr> =
           Some \<lparr>ptr = range_end (fst (mem ! i)), at_end = False\<rparr>"
  using assms by (simp add: incr_def deref_at_position range_end_map_km)

lemma it_eq_end_at_position:
  assumes "at_position mem p i"
  shows "it_eq mem \<lparr>ptr = p, at_end = False\<rparr> maps_end = (i = length mem)"
  using assms by (simp add: it_eq_def to_it_at_position)

lemma find_stack_from:
  assumes "mem_valid mem" and "at_position mem p i" and "length mem - i < fuel"
  shows "find_stack fuel mem \<lparr>ptr = p, at_end = False\<rparr> =
           Some (map_option (\<lambda>e. map_km (snd e))
                   (find (\<lambda>e. is_usable_area (map_km (snd e))) (drop i mem)))"
  using assms
proof (induction "length mem - i" arbitrary: i p fuel)
  case 0
  then have i: "i = length mem" by (simp add: at_position_def)
  from 0 obtain n where fuel: "fuel = Suc n" by (cases fuel) auto
  from it_eq_end_at_position [OF "0.prems"(2)] i show ?case by (simp add: fuel)
next
  case (Suc k)
  then have i: "i < length mem" by simp
  from Suc obtain n where fuel: "fuel = Suc n" by (cases fuel) auto
  have ne: "\<not> it_eq mem \<lparr>ptr = p, at_end = False\<rparr> maps_end"
    using it_eq_end_at_position [OF Suc.prems(2)] i by simp
  have dr: "drop i mem = mem ! i # drop (Suc i) mem"
    using i by (simp add: Cons_nth_drop_Suc)
  show ?case
  proof (cases "is_usable_area (map_km (snd (mem ! i)))")
    case True
    then show ?thesis
      by (simp add: fuel ne deref_at_position [OF Suc.prems(2) i] dr)
  next
    case False
    have k: "k = length mem - Suc i" using Suc.hyps(2) by simp
    have f: "length mem - Suc i < n" using Suc.prems(3) fuel i by simp
    from Suc.hyps(1) [OF k Suc.prems(1) at_position_step [OF Suc.prems(1) i] f] False
    show ?thesis
      by (simp add: fuel ne deref_at_position [OF Suc.prems(2) i] dr
          incr_at_position [OF Suc.prems(1) Suc.prems(2) i])
  qed
qed

lemma maps_for_each_from:
  assumes body: "\<And>m mem0. same_layout mem0 (body m mem0)"
    and "mem_valid mem" and "at_position mem p i" and "length mem - i < fuel"
  shows "\<exists>ms mem'. maps_for_each fuel body mem \<lparr>ptr = p, at_end = False\<rparr> = Some (ms, mem') \<and>
           same_layout mem mem' \<and>
           map (\<lambda>m. range_of (map_km m)) ms = drop i (map fst mem)"
  using assms(2-)
proof (induction "length mem - i" arbitrary: mem i p fuel)
  case 0
  then have i: "i = length mem" by (simp add: at_position_def)
  from 0 obtain n where fuel: "fuel = Suc n" by (cases fuel) auto
  from it_eq_end_at_position [OF "0.prems"(2)] i show ?case by (simp add: fuel)
next
  case (Suc k)
  then have i: "i < length mem" by simp
  from Suc obtain n where fuel: "fuel = Suc n" by (cases fuel) auto
  have ne: "\<not> it_eq mem \<lparr>ptr = p, at_end = False\<rparr> maps_end"
    using it_eq_end_at_position [OF Suc.prems(2)] i by simp
  define m where "m = snd (mem ! i)"
  define mem1 where "mem1 = body m mem"
  have sl: "same_layout mem mem1" by (simp add: mem1_def body)
  have v1: "mem_valid mem1" by (rule same_layout_valid [OF sl Suc.prems(1)])
  have p1: "at_position mem1 p i" by (rule same_layout_at_position [OF sl Suc.prems(2)])
  have len1: "length mem1 = length mem" by (rule same_layout_length [OF sl])
  have i1: "i < length mem1" using i len1 by simp
  have key1: "fst (mem1 ! i) = fst (mem ! i)" by (rule same_layout_fst [OF sl i])
  have k: "k = length mem1 - Suc i" using Suc.hyps(2) len1 by simp
  have f: "length mem1 - Suc i < n" using Suc.prems(3) fuel i len1 by simp
  from Suc.hyps(1) [OF k v1 at_position_step [OF v1 i1] f]
  obtain ms mem2 where run: "maps_for_each n body mem1
        \<lparr>ptr = range_end (fst (mem1 ! i)), at_end = False\<rparr> = Some (ms, mem2)"
    and sl2: "same_layout mem1 mem2"
    and rs: "map (\<lambda>m. range_of (map_km m)) ms = drop (Suc i) (map fst mem1)"
    by blast
  have step: "maps_for_each fuel body mem \<lparr>ptr = p, at_end = False\<rparr> = Some (m # ms, mem2)"
    by (simp add: fuel ne deref_at_position [OF Suc.prems(2) i] m_def [symmetric]
        mem1_def [symmetric] Let_def incr_at_position [OF v1 p1 i1] run)
  have keys: "map fst mem1 = map fst mem" using sl by (simp add: same_layout_def)
  have "range_of (map_km m) = fst (mem ! i)"
    unfolding m_def by (rule mem_valid_nth(2) [OF Suc.prems(1) i])
  moreover have "drop i (map fst mem) = fst (mem ! i) # drop (Suc i) (map fst mem)"
    using i by (simp add: Cons_nth_drop_Suc [symmetric])
  ultimately have "map (\<lambda>m. range_of (map_km m)) (m # ms) = drop i (map fst mem)"
    using rs keys by simp
  with step same_layout_trans [OF sl sl2] show ?case by blast
qed

lemma maps_for_each_id_from:
  assumes "mem_valid mem" and "at_position mem p i" and "length mem - i < fuel"
  shows "maps_for_each fuel (\<lambda>m mem0. mem0) mem \<lparr>ptr = p, at_end = False\<rparr> =
           Some (map snd (drop i mem), mem)"
  using assms
proof (induction "length mem - i" arbitrary: i p fuel)
  case 0
  then have i: "i = length mem" by (simp add: at_position_def)
  from 0 obtain n where fuel: "fuel = Suc n" by (cases fuel) auto
  from it_eq_end_at_position [OF "0.prems"(2)] i show ?case by (simp add: fuel)
next
  case (Suc k)
  then have i: "i < length mem" by simp
  from Suc obtain n where fuel: "fuel = Suc n" by (cases fuel) auto
  have ne: "\<not> it_eq mem \<lparr>ptr = p, at_end = False\<rparr> maps_end"
    using it_eq_end_at_position [OF Suc.prems(2)] i by simp
  have dr: "drop i mem = mem ! i # drop (Suc i) mem"
    using i by (simp add: Cons_nth_drop_Suc)
  have k: "k = length mem - Suc i" using Suc.hyps(2) by simp
  have f: "length mem - Suc i < n" using Suc.prems(3) fuel i by simp
  from Suc.hyps(1) [OF k Suc.prems(1) at_position_step [OF Suc.prems(1) i] f]
  show ?case
    by (simp add: fuel ne deref_at_position [OF Suc.prems(2) i] dr
        incr_at_position [OF Suc.prems(1) Suc.prems(2) i])
qed

lemma lower_bound_keys:
  "lower_bound mem key = length (takeWhile (\<lambda>k. MappingComparator k key) (map fst mem))"
  by (simp add: lower_bound_def takeWhile_map comp_def)

lemma to_it_same_layout:
  assumes "same_layout mem mem'"
  shows "to_it mem' it = to_it mem it"
proof -
  from assms have "map fst mem' = map fst mem" by (simp add: same_layout_def)
  then show ?thesis
    by (simp add: to_it_def lower_bound_keys same_layout_length [OF assms])
qed

lemma same_layout_protect_entry: "same_layout mem (protect_entry p r mem)"
  by (induction mem) (auto simp: same_layout_def protect_entry_def set_prot_def range_of_def)

lemma bit_3: "bit (3 :: 32 word) n = (n = 0 \<or> n = 1)"
proof (cases n)
  case 0
  then show ?thesis by simp
next
  case (Suc m)
  then show ?thesis by (simp add: bit_Suc bit_1_iff)
qed

lemma and_3_bits: "((w :: 32 word) AND 3 = 3) = (bit w 0 \<and> bit w 1)"
proof
  assume h: "w AND 3 = 3"
  have "bit (w AND 3) 0" and "bit (w AND 3) 1" by (simp_all add: h bit_3)
  then show "bit w 0 \<and> bit w 1" by (simp add: bit_and_iff)
next
  assume h: "bit w 0 \<and> bit w 1"
  show "w AND 3 = 3"
  proof (rule bit_word_eqI)
    fix n
    have "bit (w AND 3) n = (bit w n \<and> (n = 0 \<or> n = 1))"
      unfolding bit_and_iff bit_3 ..
    also have "\<dots> = (n = 0 \<or> n = 1)" using h by auto
    also have "\<dots> = bit (3 :: 32 word) n" unfolding bit_3 ..
    finally show "bit (w AND 3) n = bit (3 :: 32 word) n" .
  qed
qed

lemma is_usable_area_bits:
  "is_usable_area km =
     ((prot km AND PROT_READ) \<noteq> 0 \<and> (prot km AND PROT_WRITE) \<noteq> 0 \<and>
      (flags km AND MAP_PRIVATE) \<noteq> 0)"
  by (simp add: is_usable_area_def PROT_READ_def PROT_WRITE_def and_3_bits
      bit_iff_and_push_bit_not_eq_0)

lemma find_stack_begin:
  assumes "mem_valid mem" and "length mem < fuel"
  shows "find_stack fuel mem (maps_begin 0) =
           Some (map_option (\<lambda>e. map_km (snd e))
                   (find (\<lambda>e. is_usable_area (map_km (snd e))) mem))"
  using find_stack_from [OF assms(1) at_position_begin, of fuel] assms(2)
  by (simp add: maps_begin_def)

lemma has_mapping_iff: "has_mapping mem a = (mapping_of mem a \<noteq> None)"
  by (simp add: has_mapping_def mapping_of_def)

text \<open>
  Claim C8: over a map that satisfies the representation invariant, the loop over
  \<open>maps()\<close> ends and visits every entry once, in increasing address order, also when the
  loop body changes the map without adding or removing entries; without such changes it
  yields exactly the stored mappings. The position that an iterator denotes depends on
  the keys of the map only, so it is the same before and after such a change.
\<close>

theorem maps_iteration_address_order:
  assumes valid: "mem_valid mem"
    and non_structural: "\<And>m mem0. same_layout mem0 (body m mem0)"
    and fuel: "length mem < fuel"
  shows "maps_for_each fuel (\<lambda>m mem0. mem0) mem (maps_begin 0) = Some (map snd mem, mem) \<and>
     (\<exists>ms mem'. maps_for_each fuel body mem (maps_begin 0) = Some (ms, mem') \<and>
        same_layout mem mem' \<and>
        map (\<lambda>m. range_of (map_km m)) ms = map fst mem \<and>
        sorted_wrt (\<lambda>a b. range_end a \<le> range_start b) (map (\<lambda>m. range_of (map_km m)) ms)) \<and>
     (\<forall>mem' it. same_layout mem mem' \<longrightarrow> to_it mem' it = to_it mem it)"
proof -
  have a: "maps_for_each fuel (\<lambda>m mem0. mem0) mem (maps_begin 0) = Some (map snd mem, mem)"
    using maps_for_each_id_from [OF valid at_position_begin, of fuel] fuel
    by (simp add: maps_begin_def)
  from maps_for_each_from [of body, OF non_structural valid at_position_begin, of fuel] fuel
  obtain ms mem' where run: "maps_for_each fuel body mem (maps_begin 0) = Some (ms, mem')"
    and sl: "same_layout mem mem'"
    and rs: "map (\<lambda>m. range_of (map_km m)) ms = map fst mem"
    by (auto simp: maps_begin_def)
  from valid have "sorted_wrt (\<lambda>a b. range_end a \<le> range_start b) (map fst mem)"
    by (simp add: mem_valid_def)
  with rs have so: "sorted_wrt (\<lambda>a b. range_end a \<le> range_start b)
      (map (\<lambda>m. range_of (map_km m)) ms)" by simp
  from a run sl rs so to_it_same_layout show ?thesis by blast
qed

lemma mem_two_valid: "mem_valid mem_two"
  by code_simp

lemma mem_at_zero_valid: "mem_valid mem_at_zero"
  by code_simp

theorem maps_iteration_address_order_witness:
  "\<exists>ms mem'. maps_for_each 3 (\<lambda>m. protect_entry PROT_EXEC (range_of (map_km m))) mem_two
        (maps_begin 0) = Some (ms, mem') \<and>
     map (\<lambda>m. range_of (map_km m)) ms =
       [\<lparr>range_start = 0x10000, range_end = 0x20000\<rparr>,
        \<lparr>range_start = 0x30000, range_end = 0x40000\<rparr>]"
proof -
  have len: "length mem_two < 3" by (simp add: mem_two_def)
  have keys: "map fst mem_two = [\<lparr>range_start = 0x10000, range_end = 0x20000\<rparr>,
        \<lparr>range_start = 0x30000, range_end = 0x40000\<rparr>]"
    by (simp add: mem_two_def mk_mapping_def)
  from maps_iteration_address_order
    [where body = "\<lambda>m. protect_entry PROT_EXEC (range_of (map_km m))" and mem = mem_two
       and fuel = 3, OF mem_two_valid same_layout_protect_entry len]
  obtain ms mem' where
    "maps_for_each 3 (\<lambda>m. protect_entry PROT_EXEC (range_of (map_km m))) mem_two
        (maps_begin 0) = Some (ms, mem')"
    and "map (\<lambda>m. range_of (map_km m)) ms = map fst mem_two"
    by blast
  with keys show ?thesis by auto
qed

text \<open>
  Claim C7, as stated, fails in both directions. Before the initial exec the stack pointer
  is kept although no mapping holds the byte below it. After the initial exec a stack
  pointer 32 KiB above the start of a private, writable mapping that is not readable is
  not kept: the search is run, finds no usable mapping, and the assertion fails.
\<close>

theorem keep_stack_pointer_counterexample:
  "maybe_fix_stack_pointer 5 False 0x18000 [] = Some (Inr No_fix) \<and>
   \<not> has_mapping [] (0x18000 - 1) \<and>
   maybe_fix_stack_pointer 5 True 0x18000 mem_write_only = Some (Inl No_stack_area_found) \<and>
   map_option (\<lambda>m. private_and_writable (map_km m) \<and> range_start (map_km m) + 2048 \<le> 0x18000)
     (mapping_of mem_write_only (0x18000 - 1)) = Some True"
  by code_simp

text \<open>
  Claim C7, amended, for an address space whose map is ordered, without overlap and
  without empty entries. Before the session's initial exec the stack pointer is always
  kept. After it, the stack pointer is kept exactly when the byte below it lies in a
  mapping that is private, readable and writable and whose start is at least 2048 bytes
  below the stack pointer. Otherwise the first mapping in address order that is private,
  readable and writable is looked for: if there is one and it does not start at address 0,
  the stack pointer is set to its end; if there is none, or if the one found starts at
  address 0, the assertion that a stack area was found fails.
\<close>

theorem maybe_fix_stack_pointer_spec:
  assumes valid: "mem_valid mem" and fuel: "length mem < fuel"
  shows "maybe_fix_stack_pointer fuel False sp mem = Some (Inr No_fix) \<and>
     (maybe_fix_stack_pointer fuel True sp mem = Some (Inr No_fix)) =
       (\<exists>m. mapping_of mem (sp - 1) = Some m \<and> is_usable_area (map_km m) \<and>
            range_start (map_km m) + 2048 \<le> sp) \<and>
     (\<not> (\<exists>m. mapping_of mem (sp - 1) = Some m \<and> is_usable_area (map_km m) \<and>
            range_start (map_km m) + 2048 \<le> sp) \<longrightarrow>
      maybe_fix_stack_pointer fuel True sp mem =
        (case find (\<lambda>e. is_usable_area (map_km (snd e))) mem of
           None \<Rightarrow> Some (Inl No_stack_area_found)
         | Some e \<Rightarrow>
             if range_start (map_km (snd e)) = 0 then Some (Inl No_stack_area_found)
             else Some (Inr (Set_sp (range_end (map_km (snd e))))))) \<and>
     (\<forall>km. is_usable_area km =
        ((prot km AND PROT_READ) \<noteq> 0 \<and> (prot km AND PROT_WRITE) \<noteq> 0 \<and>
         (flags km AND MAP_PRIVATE) \<noteq> 0))"
proof -
  let ?keep = "\<exists>m. mapping_of mem (sp - 1) = Some m \<and> is_usable_area (map_km m) \<and>
            range_start (map_km m) + 2048 \<le> sp"
  let ?search = "case find (\<lambda>e. is_usable_area (map_km (snd e))) mem of
           None \<Rightarrow> Some (Inl No_stack_area_found)
         | Some e \<Rightarrow>
             if range_start (map_km (snd e)) = 0 then Some (Inl No_stack_area_found)
             else Some (Inr (Set_sp (range_end (map_km (snd e)))))"
  have cond: "(has_mapping mem (sp - 1) \<and>
           (case mapping_of mem (sp - 1) of
              None \<Rightarrow> False
            | Some m \<Rightarrow> is_usable_area (map_km m) \<and> range_start (map_km m) + 2048 \<le> sp)) = ?keep"
    by (cases "mapping_of mem (sp - 1)") (simp_all add: has_mapping_iff)
  have p1: "maybe_fix_stack_pointer fuel False sp mem = Some (Inr No_fix)"
    by (simp add: maybe_fix_stack_pointer_def)
  have kept: "?keep \<Longrightarrow> maybe_fix_stack_pointer fuel True sp mem = Some (Inr No_fix)"
    unfolding maybe_fix_stack_pointer_def Let_def cond by simp
  have srch: "maybe_fix_stack_pointer fuel True sp mem = ?search" if "\<not> ?keep"
    unfolding maybe_fix_stack_pointer_def Let_def cond find_stack_begin [OF valid fuel]
    using that by (simp split: option.splits)
  have ne: "?search \<noteq> Some (Inr No_fix)"
    by (simp split: option.splits)
  have p2: "(maybe_fix_stack_pointer fuel True sp mem = Some (Inr No_fix)) = ?keep"
  proof (cases ?keep)
    case True
    with kept show ?thesis by simp
  next
    case False
    from srch [OF False] ne False show ?thesis by simp
  qed
  have p3: "\<not> ?keep \<longrightarrow> maybe_fix_stack_pointer fuel True sp mem = ?search"
    using srch by (rule impI)
  have p4: "\<forall>km. is_usable_area km =
        ((prot km AND PROT_READ) \<noteq> 0 \<and> (prot km AND PROT_WRITE) \<noteq> 0 \<and>
         (flags km AND MAP_PRIVATE) \<noteq> 0)"
    using is_usable_area_bits by (rule allI)
  show ?thesis
    by (rule conjI [OF p1 conjI [OF p2 conjI [OF p3 p4]]])
qed

theorem maybe_fix_stack_pointer_spec_witness:
  "maybe_fix_stack_pointer 3 True 0x38000 mem_two = Some (Inr No_fix) \<and>
   maybe_fix_stack_pointer 3 True 0x18000 mem_two = Some (Inr (Set_sp 0x40000)) \<and>
   maybe_fix_stack_pointer 3 True 0x30000 mem_at_zero = Some (Inl No_stack_area_found)"
proof -
  have len: "length mem_two < 3" by (simp add: mem_two_def)
  have m1: "mapping_of mem_two (0x38000 - 1) = Some (snd (mem_two ! 1))"
    and u1: "is_usable_area (map_km (snd (mem_two ! 1)))"
    and h1: "range_start (map_km (snd (mem_two ! 1))) + 2048 \<le> 0x38000"
    and m2: "mapping_of mem_two (0x18000 - 1) = Some (snd (mem_two ! 0))"
    and u2: "\<not> is_usable_area (map_km (snd (mem_two ! 0)))"
    by code_simp+
  from m1 u1 h1
  have k1: "\<exists>m. mapping_of mem_two (0x38000 - 1) = Some m \<and> is_usable_area (map_km m) \<and>
            range_start (map_km m) + 2048 \<le> 0x38000" by blast
  from m2 u2
  have k2: "\<not> (\<exists>m. mapping_of mem_two (0x18000 - 1) = Some m \<and> is_usable_area (map_km m) \<and>
            range_start (map_km m) + 2048 \<le> 0x18000)" by auto
  from maybe_fix_stack_pointer_spec [OF mem_two_valid len, of "0x38000"] k1
  have a: "maybe_fix_stack_pointer 3 True 0x38000 mem_two = Some (Inr No_fix)" by blast
  from maybe_fix_stack_pointer_spec [OF mem_two_valid len, of "0x18000"] k2
  have "maybe_fix_stack_pointer 3 True 0x18000 mem_two =
        (case find (\<lambda>e. is_usable_area (map_km (snd e))) mem_two of
           None \<Rightarrow> Some (Inl No_stack_area_found)
         | Some e \<Rightarrow>
             if range_start (map_km (snd e)) = 0 then Some (Inl No_stack_area_found)
             else Some (Inr (Set_sp (range_end (map_km (snd e))))))" by blast
  moreover have "(case find (\<lambda>e. is_usable_area (map_km (snd e))) mem_two of
           None \<Rightarrow> Some (Inl No_stack_area_found)
         | Some e \<Rightarrow>
             if range_start (map_km (snd e)) = 0 then Some (Inl No_stack_area_found)
             else Some (Inr (Set_sp (range_end (map_km (snd e)))))) = Some (Inr (Set_sp 0x40000))"
    by code_simp
  ultimately have b: "maybe_fix_stack_pointer 3 True 0x18000 mem_two = Some (Inr (Set_sp 0x40000))"
    by simp
  have len0: "length mem_at_zero < 3" by (simp add: mem_at_zero_def)
  have m3: "mapping_of mem_at_zero (0x30000 - 1) = None" by code_simp
  then have k3: "\<not> (\<exists>m. mapping_of mem_at_zero (0x30000 - 1) = Some m \<and>
            is_usable_area (map_km m) \<and> range_start (map_km m) + 2048 \<le> 0x30000)" by simp
  from maybe_fix_stack_pointer_spec [OF mem_at_zero_valid len0, of "0x30000"] k3
  have "maybe_fix_stack_pointer 3 True 0x30000 mem_at_zero =
        (case find (\<lambda>e. is_usable_area (map_km (snd e))) mem_at_zero of
           None \<Rightarrow> Some (Inl No_stack_area_found)
         | Some e \<Rightarrow>
             if range_start (map_km (snd e)) = 0 then Some (Inl No_stack_area_found)
             else Some (Inr (Set_sp (range_end (map_km (snd e))))))" by blast
  moreover have "(case find (\<lambda>e. is_usable_area (map_km (snd e))) mem_at_zero of
           None \<Rightarrow> Some (Inl No_stack_area_found)
         | Some e \<Rightarrow>
             if range_start (map_km (snd e)) = 0 then Some (Inl No_stack_area_found)
             else Some (Inr (Set_sp (range_end (map_km (snd e)))))) =
         Some (Inl No_stack_area_found)"
    by code_simp
  ultimately have c: "maybe_fix_stack_pointer 3 True 0x30000 mem_at_zero =
      Some (Inl No_stack_area_found)"
    by simp
  from a b c show ?thesis by simp
qed

subsection \<open>The version check of TraceReader\<close>

text \<open>
  Claim C6, as stated, fails for a missing version file: the process exits, but the
  message that is printed names the version file only, not the expected version.
\<close>

theorem version_file_missing_counterexample:
  "TraceReader_open fs_no_version ''/latest'' ''/t'' =
     Exits EX_DATAERR
       (Version_file_not_found [Arg_s ''/t/version'', Arg_s ''/t/version'', Arg_s ''/t/version'']) \<and>
   Arg_d TRACE_VERSION \<notin>
     set (message_args
            (Version_file_not_found
               [Arg_s ''/t/version'', Arg_s ''/t/version'', Arg_s ''/t/version'']))"
  by (simp add: TraceReader_open_def fs_no_version_def version_path_def Let_def)

text \<open>
  Claim C6, amended. A missing version file is fatal (exit status \<open>EX_DATAERR\<close>) with a
  message that names the version file. A version file that does not parse, or parses to
  an integer other than 41, is fatal with a message that names the version file, the
  version read and the expected version 41. The constructor returns a reader only when
  the version file parses to exactly 41.
\<close>

theorem version_check:
  fixes file_sys latest_trace_symlink dir
  defines "tdir \<equiv> (if dir = [] then latest_trace_symlink else dir)"
  defines "vp \<equiv> version_path tdir"
  shows "(file_sys vp = None \<longrightarrow>
      TraceReader_open file_sys latest_trace_symlink dir =
        Exits EX_DATAERR (Version_file_not_found [Arg_s vp, Arg_s vp, Arg_s vp])) \<and>
     (\<forall>content. file_sys vp = Some content \<and> extract_int content \<noteq> (False, 41) \<longrightarrow>
        TraceReader_open file_sys latest_trace_symlink dir =
          Exits EX_DATAERR
            (Incompatible_version
               [Arg_s vp, Arg_d (snd (extract_int content)), Arg_d 41, Arg_s vp, Arg_s vp])) \<and>
     (\<forall>r. TraceReader_open file_sys latest_trace_symlink dir = Reader r \<longrightarrow>
        (\<exists>content. file_sys vp = Some content \<and> extract_int content = (False, 41)))"
  unfolding tdir_def vp_def
  by (auto simp: TraceReader_open_def Let_def TRACE_VERSION_def split: option.splits prod.splits)

theorem version_check_witness:
  "TraceReader_open (fs_with_version ''40'') ''/latest'' ''/t'' =
     Exits EX_DATAERR
       (Incompatible_version
          [Arg_s ''/t/version'', Arg_d 40, Arg_d 41, Arg_s ''/t/version'', Arg_s ''/t/version'']) \<and>
   TraceReader_open fs_no_version ''/latest'' ''/t'' =
     Exits EX_DATAERR
       (Version_file_not_found [Arg_s ''/t/version'', Arg_s ''/t/version'', Arg_s ''/t/version''])"
proof -
  have e40: "extract_int ''40'' = (False, 40)" by code_simp
  have f40: "fs_with_version ''40'' (version_path ''/t'') = Some ''40''"
    by (simp add: fs_with_version_def version_path_def)
  have fno: "fs_no_version (version_path ''/t'') = None"
    by (simp add: fs_no_version_def version_path_def)
  from version_check [of "fs_with_version ''40''" "''/t''" "''/latest''"] f40 e40
  have a: "TraceReader_open (fs_with_version ''40'') ''/latest'' ''/t'' =
     Exits EX_DATAERR
       (Incompatible_version
          [Arg_s (version_path ''/t''), Arg_d 40, Arg_d 41, Arg_s (version_path ''/t''),
           Arg_s (version_path ''/t'')])"
    by simp
  from version_check [of fs_no_version "''/t''" "''/latest''"] fno
  have b: "TraceReader_open fs_no_version ''/latest'' ''/t'' =
     Exits EX_DATAERR
       (Version_file_not_found [Arg_s (version_path ''/t''), Arg_s (version_path ''/t''),
          Arg_s (version_path ''/t'')])"
    by simp
  from a b show ?thesis by (simp add: version_path_def)
qed

subsection \<open>The round trip of trace frames\<close>


















text \<open>The reader.\<close>

lemma and_then_simps [simp]:
  "and_then (Inr x) k = k x" "and_then (Inl e) k = Inl e"
  by (simp_all add: and_then_def)

lemma Format_of_char_to_char [simp]: "Format_of_char (Format_to_char x) = Some x"
  by (cases x) (simp_all add: Format_of_char_def)

lemma Format_to_char_NONE [simp]: "(Format_to_char x = 0) = (x = NONE)"
  by (cases x) simp_all
























end
